theory Spec2Isabelle
  imports Complex_Main "HOL-Library.Multiset"
begin

section \<open>Configuration and numbers\<close>

text \<open>
  The JavaScript numbers and the PostgreSQL \<open>FLOAT\<close> columns are IEEE doubles; they are
  idealised as \<open>real\<close> here (no rounding, no NaN, no infinities). Timestamps are points on
  the real line: seconds since the epoch on the database side (\<open>TIMESTAMPTZ\<close>),
  milliseconds on the JavaScript side (\<open>Date.now()\<close>). The wall clock (\<open>NOW()\<close>,
  \<open>Date.now()\<close>) is an explicit argument \<open>now\<close>.
\<close>

record config =
  embeddingDimension :: nat
  semanticWeight :: real
  recencyWeight :: real
  defaultImportance :: real
  recencyDecayDays :: int

text \<open>The values \<open>config.js\<close> falls back to when the environment sets nothing.\<close>

definition default_config :: config where
  "default_config =
     \<lparr> embeddingDimension = 768,
       semanticWeight = 8 / 10,
       recencyWeight = 2 / 10,
       defaultImportance = 5 / 10,
       recencyDecayDays = 30 \<rparr>"

text \<open>The operator \<open>a ?? b\<close>, and a default parameter value: \<open>None\<close> is an absent value.\<close>

definition nullish :: "'a option \<Rightarrow> 'a \<Rightarrow> 'a" where
  "nullish a b = (case a of None \<Rightarrow> b | Some v \<Rightarrow> v)"

section \<open>ScoringEngine\<close>

subsection \<open>utils/hybrid-search.js\<close>





subsection \<open>db/schema.sql: the scoring functions of the database\<close>

datatype sql_error =
    DivisionByZero
  | CheckViolation string
  | DimensionMismatch nat nat
  | UniqueViolation string
  | NotNullViolation string
  | ForeignKeyViolation string
  | IndeterminateParameter nat
  | BindCountMismatch nat nat

text \<open>
  \<open>calculate_recency_score(last_accessed, decay_days)\<close>: PostgreSQL raises
  \<open>division by zero\<close> on a zero divisor, also for \<open>FLOAT\<close>.
\<close>

definition calculate_recency_score :: "real \<Rightarrow> real \<Rightarrow> int \<Rightarrow> sql_error + real" where
  "calculate_recency_score now last_accessed decay_days =
     (let days_since_access = (now - last_accessed) / 86400
      in if decay_days = 0 then Inl DivisionByZero
         else Inr (exp (- days_since_access / real_of_int decay_days)))"

definition calculate_hybrid_score ::
  "real \<Rightarrow> real \<Rightarrow> real \<Rightarrow> real \<Rightarrow> real \<Rightarrow> real \<Rightarrow> int \<Rightarrow> sql_error + real" where
  "calculate_hybrid_score now semantic_similarity last_accessed importance
       semantic_weight recency_weight decay_days =
     (case calculate_recency_score now last_accessed decay_days of
        Inl e \<Rightarrow> Inl e
      | Inr recency_score \<Rightarrow>
          (let base_score = (semantic_weight * semantic_similarity) + (recency_weight * recency_score)
           in Inr (base_score * (5 / 10 + importance))))"

section \<open>Data model (db/schema.sql)\<close>

text \<open>
  A row of \<open>memories\<close>. \<open>mem_id\<close> is the column \<open>id\<close>; nullable columns are options.
  The \<open>JSONB\<close> metadata is an opaque list of key/value pairs.
\<close>

record memory =
  mem_id :: string
  content :: string
  summary :: "string option"
  embedding :: "real list"
  metadata :: "(string \<times> string) list"
  tags :: "string list"
  source :: "string option"
  importance :: real
  access_count :: int
  reinforcement_count :: int
  created_at :: real
  last_accessed :: real
  last_reinforced :: "real option"
  expires_at :: "real option"
  deleted_at :: "real option"

record relation =
  source_memory_id :: string
  target_memory_id :: string
  relation_type :: string
  strength :: real

record access_event =
  memory_id :: string
  access_type :: string
  query_text :: "string option"
  similarity_score :: "real option"
  accessed_at :: real

record db =
  memories :: "memory list"
  memory_relations :: "relation list"
  memory_access_log :: "access_event list"


section \<open>MemoryStore (db/queries.js)\<close>

text \<open>A statement fails as a whole when the evaluation of one row raises.\<close>

fun collect :: "('e + 'a) list \<Rightarrow> 'e + 'a list" where
  "collect [] = Inr []"
| "collect (x # xs) =
     (case x of
        Inl e \<Rightarrow> Inl e
      | Inr v \<Rightarrow> (case collect xs of Inl e \<Rightarrow> Inl e | Inr vs \<Rightarrow> Inr (v # vs)))"

subsection \<open>MemoryQueries.search\<close>

text \<open>
  The argument object of \<open>search\<close>; \<open>None\<close> is an absent (or \<open>null\<close>) property.
\<close>

record search_args =
  q_embedding :: "real list"
  q_limit :: "nat option"
  q_minScore :: "real option"
  q_tags :: "string list option"
  q_source :: "string option"

text \<open>
  A row of the result: the columns of the table row (the \<open>SELECT\<close> list names a subset of
  them) and the three computed scores.
\<close>

record search_row =
  row :: memory
  semantic_score :: real
  recency_score :: real
  hybrid_score :: real

text \<open>
  The \<open>WHERE\<close> clause as \<open>search\<close> assembles it: \<open>deleted_at IS NULL\<close> always,
  \<open>tags && $n\<close> (array overlap) when \<open>tags\<close> is a non-empty array, \<open>source = $n\<close> when
  \<open>source\<close> is a non-empty string (a \<open>NULL\<close> source column never equals it).
\<close>

definition tags_condition :: "string list option \<Rightarrow> memory \<Rightarrow> bool" where
  "tags_condition tgs m =
     (case tgs of
        None \<Rightarrow> True
      | Some ts \<Rightarrow> if length ts > 0 then set (tags m) \<inter> set ts \<noteq> {} else True)"

definition source_condition :: "string option \<Rightarrow> memory \<Rightarrow> bool" where
  "source_condition src m =
     (case src of
        None \<Rightarrow> True
      | Some s \<Rightarrow> if s \<noteq> [] then source m = Some s else True)"

definition whereClause :: "search_args \<Rightarrow> memory \<Rightarrow> bool" where
  "whereClause args m =
     (deleted_at m = None \<and> tags_condition (q_tags args) m \<and> source_condition (q_source args) m)"

text \<open>
  The \<open>SELECT\<close> list for one table row. \<open>cdist\<close> is pgvector's cosine distance
  \<open>embedding <=> $1\<close>, which is not part of this repository: a parameter.
\<close>

definition score_row ::
  "config \<Rightarrow> (real list \<Rightarrow> real list \<Rightarrow> real) \<Rightarrow> real \<Rightarrow> real list \<Rightarrow> memory
     \<Rightarrow> sql_error + search_row" where
  "score_row cfg cdist now q m =
     (case calculate_recency_score now (last_accessed m) (recencyDecayDays cfg) of
        Inl e \<Rightarrow> Inl e
      | Inr rs \<Rightarrow>
          (case calculate_hybrid_score now (1 - cdist (embedding m) q) (last_accessed m)
                  (importance m) (semanticWeight cfg) (recencyWeight cfg) (recencyDecayDays cfg) of
             Inl e \<Rightarrow> Inl e
           | Inr hs \<Rightarrow>
               Inr \<lparr> row = m, semantic_score = 1 - cdist (embedding m) q,
                     recency_score = rs, hybrid_score = hs \<rparr>))"

text \<open>
  \<open>ORDER BY hybrid_score DESC\<close>, and the comparator \<open>(a, b) => b.hybrid_score - a.hybrid_score\<close>
  of \<open>Array.prototype.sort\<close>: a stable sort on the negated score. (PostgreSQL leaves the
  order of rows with equal scores open; the model keeps them in table order.)
\<close>

definition order_by_hybrid_desc :: "search_row list \<Rightarrow> search_row list" where
  "order_by_hybrid_desc rows = sort_key (\<lambda>r. - hybrid_score r) rows"

text \<open>The candidate pool: the scored rows that satisfy the \<open>WHERE\<close> clause.\<close>

definition candidate_pool ::
  "config \<Rightarrow> (real list \<Rightarrow> real list \<Rightarrow> real) \<Rightarrow> real \<Rightarrow> search_args \<Rightarrow> db
     \<Rightarrow> sql_error + search_row list" where
  "candidate_pool cfg cdist now args d =
     collect (map (score_row cfg cdist now (q_embedding args))
                (filter (whereClause args) (memories d)))"

definition search ::
  "config \<Rightarrow> (real list \<Rightarrow> real list \<Rightarrow> real) \<Rightarrow> real \<Rightarrow> search_args \<Rightarrow> db
     \<Rightarrow> sql_error + search_row list" where
  "search cfg cdist now args d =
     (let limit = nullish (q_limit args) 10;
          minScore = nullish (q_minScore args) (3 / 10)
      in case candidate_pool cfg cdist now args d of
           Inl e \<Rightarrow> Inl e
         | Inr rows \<Rightarrow>
             Inr (filter (\<lambda>r. hybrid_score r \<ge> minScore)
                    (take limit (order_by_hybrid_desc rows))))"

text \<open>
  The scored row in closed form (what \<open>score_row\<close> returns when the decay constant is not
  zero); used to state results about the candidate pool.
\<close>

definition scored ::
  "config \<Rightarrow> (real list \<Rightarrow> real list \<Rightarrow> real) \<Rightarrow> real \<Rightarrow> real list \<Rightarrow> memory \<Rightarrow> search_row" where
  "scored cfg cdist now q m =
     \<lparr> row = m, semantic_score = 1 - cdist (embedding m) q,
       recency_score =
         exp (- ((now - last_accessed m) / 86400) / real_of_int (recencyDecayDays cfg)),
       hybrid_score =
         (semanticWeight cfg * (1 - cdist (embedding m) q) +
          recencyWeight cfg *
            exp (- ((now - last_accessed m) / 86400) / real_of_int (recencyDecayDays cfg)))
         * (1 / 2 + importance m) \<rparr>"

section \<open>Input validation (utils/security.js)\<close>

text \<open>
  Strings are ASCII: one \<open>char\<close> is one UTF-16 code unit and one UTF-8 byte, so
  \<open>s.length\<close> and \<open>Buffer.byteLength(s, 'utf8')\<close> are both \<open>length s\<close>. Every
  \<open>throw new Error(...)\<close> of the module is a constructor of \<open>validation_error\<close>.
\<close>

datatype validation_error =
    ContentNotString
  | ContentEmpty
  | ContentTooLarge nat nat
  | TagsNotArray
  | TooManyTags
  | TagEmpty nat
  | TagTooLong nat
  | TagInvalidChars nat
  | ImportanceOutOfRange
  | ForbiddenMetadataKey string
  | MetadataTooLarge
  | IdNotString
  | InvalidUUID
  | QueryNotString
  | QueryEmpty
  | QueryTooLong
  | LimitNotPositive




text \<open>\<open>String.prototype.trim\<close> on ASCII: tab, LF, VT, FF, CR and space.\<close>

definition js_whitespace :: "char \<Rightarrow> bool" where
  "js_whitespace c = ((of_char c :: nat) \<in> {9, 10, 11, 12, 13, 32})"

definition trim :: "string \<Rightarrow> string" where
  "trim s = rev (dropWhile js_whitespace (rev (dropWhile js_whitespace s)))"



definition toLowerCase :: "string \<Rightarrow> string" where
  "toLowerCase s =
     map (\<lambda>c. if 65 \<le> (of_char c :: nat) \<and> (of_char c :: nat) \<le> 90
              then char_of ((of_char c :: nat) + 32) else c) s"




definition validateImportance :: "real option \<Rightarrow> validation_error + real" where
  "validateImportance importance_arg =
     (case importance_arg of
        None \<Rightarrow> Inr (5 / 10)
      | Some num \<Rightarrow> if num < 0 \<or> num > 1 then Inl ImportanceOutOfRange else Inr num)"



text \<open>
  The pattern
  \<open>/^[0-9a-f]{8}-[0-9a-f]{4}-[1-5][0-9a-f]{3}-[89ab][0-9a-f]{3}-[0-9a-f]{12}$/i\<close>,
  position by position.
\<close>

datatype uuid_class = Hex | Dash | Version | Variant

definition hex_char :: "char \<Rightarrow> bool" where
  "hex_char c =
     (let n = (of_char c :: nat)
      in (48 \<le> n \<and> n \<le> 57) \<or> (97 \<le> n \<and> n \<le> 102) \<or> (65 \<le> n \<and> n \<le> 70))"

fun uuid_matches :: "uuid_class \<Rightarrow> char \<Rightarrow> bool" where
  "uuid_matches Hex c = hex_char c"
| "uuid_matches Dash c = (c = CHR ''-'')"
| "uuid_matches Version c = (c \<in> {CHR ''1'', CHR ''2'', CHR ''3'', CHR ''4'', CHR ''5''})"
| "uuid_matches Variant c = (c \<in> {CHR ''8'', CHR ''9'', CHR ''a'', CHR ''b'', CHR ''A'', CHR ''B''})"

definition uuidRegex :: "uuid_class list" where
  "uuidRegex =
     replicate 8 Hex @ [Dash] @ replicate 4 Hex @ [Dash] @ [Version] @ replicate 3 Hex @ [Dash] @
     [Variant] @ replicate 3 Hex @ [Dash] @ replicate 12 Hex"

definition validateUUID :: "string option \<Rightarrow> validation_error + string" where
  "validateUUID id_arg =
     (case id_arg of
        None \<Rightarrow> Inl IdNotString
      | Some s \<Rightarrow> if \<not> list_all2 uuid_matches uuidRegex s then Inl InvalidUUID
                  else Inr (toLowerCase s))"

definition validateQuery :: "string option \<Rightarrow> validation_error + string" where
  "validateQuery query_arg =
     (case query_arg of
        None \<Rightarrow> Inl QueryNotString
      | Some q \<Rightarrow>
          (let trimmed = trim q
           in if length trimmed = 0 then Inl QueryEmpty
              else if length trimmed > 10000 then Inl QueryTooLong
              else Inr trimmed))"

text \<open>
  The \<open>limit\<close> a caller sends: a JSON string, or a JSON number that is an integer of
  magnitude below \<open>10^21\<close>, so that its string form is its decimal numeral (numbers with
  a fraction, and the larger ones that JavaScript prints in exponent notation, are
  outside the model). \<open>parseInt(limit, 10)\<close> reads such a number back unchanged; on a
  string it skips leading white space, reads an optional sign and the longest run of
  decimal digits, and gives \<open>NaN\<close> (\<open>None\<close>) when there is no digit.
\<close>

datatype limit_value = LimitNumber int | LimitString string

definition digit_char :: "char \<Rightarrow> bool" where
  "digit_char c = (48 \<le> (of_char c :: nat) \<and> (of_char c :: nat) \<le> 57)"

definition digits_value :: "string \<Rightarrow> int" where
  "digits_value ds = foldl (\<lambda>acc c. 10 * acc + (int (of_char c) - 48)) 0 ds"

definition parseInt_string :: "string \<Rightarrow> int option" where
  "parseInt_string s =
     (let s1 = dropWhile js_whitespace s;
          negative = (case s1 of c # _ \<Rightarrow> c = CHR ''-'' | [] \<Rightarrow> False);
          s2 = (case s1 of c # rest \<Rightarrow> if c = CHR ''-'' \<or> c = CHR ''+'' then rest else s1
                         | [] \<Rightarrow> []);
          ds = takeWhile digit_char s2
      in if ds = [] then None
         else Some ((if negative then - 1 else 1) * digits_value ds))"

definition parseInt :: "limit_value \<Rightarrow> int option" where
  "parseInt v = (case v of LimitNumber n \<Rightarrow> Some n | LimitString s \<Rightarrow> parseInt_string s)"

definition validateLimit :: "limit_value option \<Rightarrow> int \<Rightarrow> validation_error + int" where
  "validateLimit limit_arg max_arg =
     (case limit_arg of
        None \<Rightarrow> Inr 10
      | Some v \<Rightarrow>
          (case parseInt v of
             None \<Rightarrow> Inl LimitNotPositive
           | Some num \<Rightarrow> if num < 1 then Inl LimitNotPositive else Inr (min num max_arg)))"

section \<open>Embeddings (embeddings/generator.js)\<close>

text \<open>
  What a tool call can fail with, by family: invalid input, the embedding service, the
  store, and a memory that is not found. The code itself throws plain \<open>Error\<close> objects
  and reports their messages.
\<close>

datatype failure =
    ValidationError validation_error
  | DependencyError string
  | StoreError sql_error
  | NotFoundError string

text \<open>Pads with zeros or truncates to the configured dimension.\<close>

definition normalizeEmbeddingDimension :: "config \<Rightarrow> real list \<Rightarrow> real list" where
  "normalizeEmbeddingDimension cfg e =
     (if length e = embeddingDimension cfg then e
      else if length e > embeddingDimension cfg then take (embeddingDimension cfg) e
      else e @ replicate (embeddingDimension cfg - length e) 0)"

text \<open>
  The embedding service (Ollama or OpenAI) is outside the repository: \<open>provider\<close> maps a
  text to the vector the service answers with, or to the message of the error raised.
\<close>

definition generateEmbedding ::
  "config \<Rightarrow> (string \<Rightarrow> string + real list) \<Rightarrow> string \<Rightarrow> failure + real list" where
  "generateEmbedding cfg provider text_arg =
     (if text_arg = [] then Inl (DependencyError ''Text must be a non-empty string'')
      else (let truncatedText = take 32000 text_arg
            in case provider truncatedText of
                 Inl msg \<Rightarrow> Inl (DependencyError msg)
               | Inr e \<Rightarrow> Inr (normalizeEmbeddingDimension cfg e)))"

text \<open>
  The batches of five run one after the other and their results are concatenated in
  order; one rejected call rejects the whole.
\<close>

definition generateEmbeddings ::
  "config \<Rightarrow> (string \<Rightarrow> string + real list) \<Rightarrow> string list \<Rightarrow> failure + real list list" where
  "generateEmbeddings cfg provider texts = collect (map (generateEmbedding cfg provider) texts)"

section \<open>MemoryStore: writes and lookups (db/queries.js)\<close>

subsection \<open>MemoryQueries.create\<close>





definition importance_check :: "memory \<Rightarrow> bool" where
  "importance_check m = (importance m \<ge> 0 \<and> importance m \<le> 1)"



subsection \<open>MemoryQueries.getById, reinforce, decay\<close>

definition first_row :: "'a list \<Rightarrow> 'a option" where
  "first_row rows = (case rows of [] \<Rightarrow> None | r # _ \<Rightarrow> Some r)"

definition getById :: "string \<Rightarrow> db \<Rightarrow> memory option" where
  "getById ident d =
     first_row (filter (\<lambda>m. mem_id m = ident \<and> deleted_at m = None) (memories d))"

text \<open>
  An \<open>UPDATE\<close>: the rows the \<open>WHERE\<close> clause selects are rewritten; when a rewritten row
  violates the importance check the statement fails and changes nothing.
\<close>

definition update_memories ::
  "(memory \<Rightarrow> bool) \<Rightarrow> (memory \<Rightarrow> memory) \<Rightarrow> db \<Rightarrow> sql_error + (memory option \<times> db)" where
  "update_memories selected set_clause d =
     (let returning = map set_clause (filter selected (memories d))
      in if \<not> list_all importance_check returning
           then Inl (CheckViolation ''memories_importance_check'')
         else Inr (first_row returning,
                   d\<lparr> memories := map (\<lambda>m. if selected m then set_clause m else m) (memories d) \<rparr>))"

definition reinforce ::
  "real \<Rightarrow> string \<Rightarrow> real option \<Rightarrow> db \<Rightarrow> sql_error + (memory option \<times> db)" where
  "reinforce now ident delta_arg d =
     (let importanceDelta = nullish delta_arg (1 / 10)
      in update_memories (\<lambda>m. mem_id m = ident \<and> deleted_at m = None)
           (\<lambda>m. m\<lparr> importance := min (importance m + importanceDelta) 1,
                    reinforcement_count := reinforcement_count m + 1,
                    last_reinforced := Some now,
                    last_accessed := now \<rparr>) d)"

definition decay ::
  "string \<Rightarrow> real option \<Rightarrow> db \<Rightarrow> sql_error + (memory option \<times> db)" where
  "decay ident factor_arg d =
     (let decayFactor = nullish factor_arg (5 / 10)
      in update_memories (\<lambda>m. mem_id m = ident \<and> deleted_at m = None)
           (\<lambda>m. m\<lparr> importance := max (importance m * decayFactor) (1 / 100) \<rparr>) d)"

text \<open>
  A sequence of lifecycle calls on one memory. A call the database rejects leaves the
  store as it was.
\<close>

datatype lifecycle_op = Reinforce real | Decay real

definition apply_op :: "real \<Rightarrow> string \<Rightarrow> db \<Rightarrow> lifecycle_op \<Rightarrow> db" where
  "apply_op now ident d op =
     (case (case op of Reinforce boost \<Rightarrow> reinforce now ident (Some boost) d
                     | Decay decayFactor \<Rightarrow> decay ident (Some decayFactor) d) of
        Inl e \<Rightarrow> d
      | Inr (r, d') \<Rightarrow> d')"

definition apply_ops :: "real \<Rightarrow> string \<Rightarrow> lifecycle_op list \<Rightarrow> db \<Rightarrow> db" where
  "apply_ops now ident ops d = foldl (apply_op now ident) d ops"

subsection \<open>MemoryQueries.getRelated\<close>

record similar_row =
  similar_memory :: memory
  similarity :: real

definition getRelated ::
  "(real list \<Rightarrow> real list \<Rightarrow> real) \<Rightarrow> string \<Rightarrow> nat \<Rightarrow> db \<Rightarrow> similar_row list" where
  "getRelated cdist ident limit d =
     (case first_row (filter (\<lambda>m. mem_id m = ident \<and> deleted_at m = None) (memories d)) of
        None \<Rightarrow> []
      | Some memory \<Rightarrow>
          map (\<lambda>m. \<lparr> similar_memory = m, similarity = 1 - cdist (embedding m) (embedding memory) \<rparr>)
            (take limit
               (sort_key (\<lambda>m. cdist (embedding m) (embedding memory))
                  (filter (\<lambda>m. mem_id m \<noteq> ident \<and> deleted_at m = None) (memories d)))))"

section \<open>RelationGraph (db/queries.js)\<close>

datatype direction = Outgoing | Incoming | Both

text \<open>
  A row of \<open>getByMemory\<close>: the edge and the content and summary of both endpoints, taken
  from the two joins on \<open>memories\<close>.
\<close>

record relation_row =
  edge :: relation
  source_content :: string
  source_summary :: "string option"
  target_content :: string
  target_summary :: "string option"

definition getByMemory :: "string \<Rightarrow> direction \<Rightarrow> db \<Rightarrow> relation_row list" where
  "getByMemory memoryId dir d =
     (let condition =
            (case dir of
               Outgoing \<Rightarrow> (\<lambda>r. source_memory_id r = memoryId)
             | Incoming \<Rightarrow> (\<lambda>r. target_memory_id r = memoryId)
             | Both \<Rightarrow> (\<lambda>r. source_memory_id r = memoryId \<or> target_memory_id r = memoryId))
      in sort_key (\<lambda>x. - strength (edge x))
           [\<lparr> edge = r, source_content = content s, source_summary = summary s,
               target_content = content t, target_summary = summary t \<rparr>.
              r \<leftarrow> memory_relations d,
              s \<leftarrow> memories d, source_memory_id r = mem_id s,
              t \<leftarrow> memories d, target_memory_id r = mem_id t,
              condition r])"

section \<open>AccessLedger (db/queries.js, db/schema.sql)\<close>

text \<open>
  A parameterised \<open>INSERT INTO memory_access_log (memory_id, access_type, query_text,
  similarity_score) VALUES ...\<close>: every tuple of \<open>VALUES\<close> names the placeholders \<open>$k\<close>
  of its \<open>memory_id\<close> and \<open>query_text\<close>, and the placeholder of its
  \<open>similarity_score\<close> or the literal \<open>NULL\<close>; the access type is the literal
  \<open>'search'\<close>.
\<close>

datatype sql_value = SqlText string | SqlNumber real | SqlNull

record values_tuple =
  memory_id_placeholder :: nat
  query_text_placeholder :: nat
  similarity_placeholder :: "nat option"

definition placeholders :: "values_tuple list \<Rightarrow> nat list" where
  "placeholders tuples =
     concat (map (\<lambda>t. [memory_id_placeholder t, query_text_placeholder t] @
                       (case similarity_placeholder t of None \<Rightarrow> [] | Some k \<Rightarrow> [k])) tuples)"

text \<open>
  PostgreSQL prepares the statement with parameters \<open>$1 .. $n\<close>, \<open>n\<close> the largest
  placeholder of the text: a parameter in that range that the text never uses has no
  type and the statement is refused; so is a bind with another number of values.
\<close>

definition prepare_and_bind :: "nat list \<Rightarrow> sql_value list \<Rightarrow> sql_error + unit" where
  "prepare_and_bind used params =
     (let n = fold max used 0
      in case filter (\<lambda>k. k \<notin> set used) [1..<Suc n] of
           k # _ \<Rightarrow> Inl (IndeterminateParameter k)
         | [] \<Rightarrow> if length params \<noteq> n then Inl (BindCountMismatch (length params) n)
                 else Inr ())"

text \<open>The trigger \<open>memory_access_trigger\<close>, for one inserted row.\<close>

definition update_memory_access :: "real \<Rightarrow> access_event \<Rightarrow> db \<Rightarrow> db" where
  "update_memory_access now new d =
     d\<lparr> memories :=
          map (\<lambda>m. if mem_id m = memory_id new
                    then m\<lparr> last_accessed := now, access_count := access_count m + 1 \<rparr>
                    else m)
            (memories d) \<rparr>"

definition insert_access_event :: "real \<Rightarrow> db \<Rightarrow> access_event \<Rightarrow> db" where
  "insert_access_event now d new =
     update_memory_access now new (d\<lparr> memory_access_log := memory_access_log d @ [new] \<rparr>)"

text \<open>One tuple of \<open>VALUES\<close> with its placeholders replaced by the bound values.\<close>

definition tuple_event ::
  "real \<Rightarrow> sql_value list \<Rightarrow> db \<Rightarrow> values_tuple \<Rightarrow> sql_error + access_event" where
  "tuple_event now params d t =
     (case params ! (memory_id_placeholder t - 1) of
        SqlText ident \<Rightarrow>
          if ident \<notin> set (map mem_id (memories d))
            then Inl (ForeignKeyViolation ''memory_access_log_memory_id_fkey'')
          else Inr \<lparr> memory_id = ident, access_type = ''search'',
                     query_text =
                       (case params ! (query_text_placeholder t - 1) of
                          SqlText q \<Rightarrow> Some q | _ \<Rightarrow> None),
                     similarity_score =
                       (case similarity_placeholder t of
                          None \<Rightarrow> None
                        | Some k \<Rightarrow> (case params ! (k - 1) of SqlNumber x \<Rightarrow> Some x | _ \<Rightarrow> None)),
                     accessed_at = now \<rparr>
      | _ \<Rightarrow> Inl (NotNullViolation ''memory_id''))"

definition insert_access_log ::
  "real \<Rightarrow> values_tuple list \<Rightarrow> sql_value list \<Rightarrow> db \<Rightarrow> sql_error + db" where
  "insert_access_log now tuples params d =
     (case prepare_and_bind (placeholders tuples) params of
        Inl e \<Rightarrow> Inl e
      | Inr _ \<Rightarrow>
          (case collect (map (tuple_event now params d) tuples) of
             Inl e \<Rightarrow> Inl e
           | Inr events \<Rightarrow> Inr (foldl (insert_access_event now) d events)))"

definition text_or_null :: "string option \<Rightarrow> sql_value" where
  "text_or_null s = (case s of None \<Rightarrow> SqlNull | Some v \<Rightarrow> SqlText v)"

definition number_or_null :: "real option \<Rightarrow> sql_value" where
  "number_or_null x = (case x of None \<Rightarrow> SqlNull | Some v \<Rightarrow> SqlNumber v)"

text \<open>\<open>updateAccess\<close>: one tuple \<open>($1, 'search', $2, $3)\<close> and three values.\<close>

definition updateAccess ::
  "real \<Rightarrow> string \<Rightarrow> string option \<Rightarrow> real option \<Rightarrow> db \<Rightarrow> sql_error + db" where
  "updateAccess now ident queryText sim d =
     insert_access_log now
       [\<lparr> memory_id_placeholder = 1, query_text_placeholder = 2, similarity_placeholder = Some 3 \<rparr>]
       [SqlText ident, text_or_null queryText, number_or_null sim] d"

text \<open>
  \<open>batchUpdateAccess\<close>: the tuple of index \<open>i\<close> is
  \<open>($\<open>i * 2 + 1\<close>, 'search', $\<open>ids.length * 2 + 1\<close>, NULL)\<close>; the values are
  \<open>[...ids, queryText]\<close>. With no ids it returns at once.
\<close>

definition batchUpdateAccess ::
  "real \<Rightarrow> string list \<Rightarrow> string option \<Rightarrow> db \<Rightarrow> sql_error + db" where
  "batchUpdateAccess now ids queryText d =
     (if length ids = 0 then Inr d
      else (let tuples = map (\<lambda>i. \<lparr> memory_id_placeholder = i * 2 + 1,
                                      query_text_placeholder = length ids * 2 + 1,
                                      similarity_placeholder = None \<rparr>) [0..<length ids];
                params = map SqlText ids @ [text_or_null queryText]
            in insert_access_log now tuples params d))"

text \<open>
  The handlers call \<open>batchUpdateAccess(...).catch(...)\<close> and do not wait for it: the
  store ends as the insert leaves it, or unchanged when the insert is rejected, and a
  rejection goes to the console only.
\<close>

definition fire_and_forget :: "sql_error + db \<Rightarrow> db \<Rightarrow> db \<times> sql_error list" where
  "fire_and_forget outcome d = (case outcome of Inl err \<Rightarrow> (d, [err]) | Inr d' \<Rightarrow> (d', []))"

section \<open>Tools (tools/*.js)\<close>

text \<open>
  The parameter bag of a tool call; \<open>None\<close> is a property the caller left out. A handler
  returns its response, the store as the call leaves it, and what it wrote to the console.
\<close>

record tool_params =
  p_query :: "string option"
  p_task :: "string option"
  p_context :: "string list option"
  p_limit :: "limit_value option"
  p_minScore :: "real option"
  p_tags :: "string list option"
  p_source :: "string option"
  p_memoryId :: "string option"
  p_includeExplicit :: "bool option"
  p_includeSimilar :: "bool option"
  p_content :: "string option"
  p_summary :: "string option"
  p_importance :: "real option"
  p_metadata :: "(string \<times> string) list option"

datatype 'a response = Success 'a | Failure failure

definition and_then :: "'e + 'a \<Rightarrow> ('a \<Rightarrow> 'e + 'b) \<Rightarrow> 'e + 'b" where
  "and_then r f = (case r of Inl e \<Rightarrow> Inl e | Inr v \<Rightarrow> f v)"

definition validated :: "validation_error + 'a \<Rightarrow> failure + 'a" where
  "validated r = (case r of Inl e \<Rightarrow> Inl (ValidationError e) | Inr v \<Rightarrow> Inr v)"

definition stored :: "sql_error + 'a \<Rightarrow> failure + 'a" where
  "stored r = (case r of Inl e \<Rightarrow> Inl (StoreError e) | Inr v \<Rightarrow> Inr v)"

text \<open>\<open>parseFloat(x.toFixed(4))\<close>: four decimals, halves rounded away from zero.\<close>

definition toFixed4 :: "real \<Rightarrow> real" where
  "toFixed4 x = (if x < 0 then - 1 else 1) * real_of_int \<lfloor>\<bar>x\<bar> * 10000 + 1 / 2\<rfloor> / 10000"

subsection \<open>tools/search_memory.js\<close>






subsection \<open>tools/recall_context.js\<close>

record recall_entry =
  entry_row :: search_row
  matchedQuery :: string

text \<open>
  \<open>allResults\<close> is a JavaScript \<open>Map\<close> from memory id to entry: a list of pairs with
  distinct keys in insertion order; \<open>set\<close> on a key that is present replaces its value
  in place.
\<close>

fun map_set :: "'k \<Rightarrow> 'v \<Rightarrow> ('k \<times> 'v) list \<Rightarrow> ('k \<times> 'v) list" where
  "map_set k v [] = [(k, v)]"
| "map_set k v ((k', v') # rest) =
     (if k' = k then (k, v) # rest else (k', v') # map_set k v rest)"

definition merge_result ::
  "string \<Rightarrow> (string \<times> recall_entry) list \<Rightarrow> search_row \<Rightarrow> (string \<times> recall_entry) list" where
  "merge_result queryText allResults result =
     (case map_of allResults (mem_id (row result)) of
        None \<Rightarrow>
          map_set (mem_id (row result)) \<lparr> entry_row = result, matchedQuery = queryText \<rparr> allResults
      | Some existing \<Rightarrow>
          if hybrid_score result > hybrid_score (entry_row existing)
          then map_set (mem_id (row result)) \<lparr> entry_row = result, matchedQuery = queryText \<rparr>
                 allResults
          else allResults)"

text \<open>The inner loop for the results of one query, and the loop over the queries.\<close>

definition merge_results ::
  "(string \<times> recall_entry) list \<Rightarrow> string \<times> search_row list \<Rightarrow> (string \<times> recall_entry) list" where
  "merge_results allResults answered =
     (case answered of (queryText, results) \<Rightarrow> foldl (merge_result queryText) allResults results)"

fun search_each ::
  "config \<Rightarrow> (real list \<Rightarrow> real list \<Rightarrow> real) \<Rightarrow> real \<Rightarrow> nat \<Rightarrow> real \<Rightarrow> db
     \<Rightarrow> (real list \<times> string) list \<Rightarrow> (string \<times> recall_entry) list
     \<Rightarrow> sql_error + (string \<times> recall_entry) list" where
  "search_each cfg cdist now per_query minScore d [] allResults = Inr allResults"
| "search_each cfg cdist now per_query minScore d ((e, queryText) # rest) allResults =
     (case search cfg cdist now
             \<lparr> q_embedding = e, q_limit = Some per_query, q_minScore = Some minScore,
               q_tags = None, q_source = None \<rparr> d of
        Inl err \<Rightarrow> Inl err
      | Inr results \<Rightarrow>
          search_each cfg cdist now per_query minScore d rest
            (merge_results allResults (queryText, results)))"

text \<open>\<open>Array.from(allResults.values()).sort(...).slice(0, limit)\<close>.\<close>

definition combine :: "nat \<Rightarrow> (string \<times> recall_entry) list \<Rightarrow> recall_entry list" where
  "combine limit allResults =
     take limit (sort_key (\<lambda>en. - hybrid_score (entry_row en)) (map snd allResults))"

record recall_view =
  rv_id :: string
  rv_content :: string
  rv_summary :: "string option"
  rv_tags :: "string list"
  rv_importance :: real
  rv_source :: "string option"
  rv_matchedQuery :: string
  rv_hybrid :: real
  rv_semantic :: real
  rv_createdAt :: real

definition recall_view_of :: "recall_entry \<Rightarrow> recall_view" where
  "recall_view_of en =
     (let r = entry_row en
      in \<lparr> rv_id = mem_id (row r), rv_content = content (row r), rv_summary = summary (row r),
           rv_tags = tags (row r), rv_importance = importance (row r),
           rv_source = source (row r), rv_matchedQuery = matchedQuery en,
           rv_hybrid = toFixed4 (hybrid_score r), rv_semantic = toFixed4 (semantic_score r),
           rv_createdAt = created_at (row r) \<rparr>)"

record recall_success =
  rs_task :: string
  rs_contextQueries :: nat
  rs_count :: nat
  rs_memories :: "recall_view list"

definition recall_context_combined ::
  "config \<Rightarrow> (string \<Rightarrow> string + real list) \<Rightarrow> (real list \<Rightarrow> real list \<Rightarrow> real) \<Rightarrow> real
     \<Rightarrow> tool_params \<Rightarrow> db \<Rightarrow> failure + (string \<times> recall_entry list)" where
  "recall_context_combined cfg provider cdist now params d =
     and_then (validated (validateQuery (p_task params))) (\<lambda>task.
     let contextItems = nullish (p_context params) [] in
     and_then (validated (validateLimit (p_limit params) 50)) (\<lambda>limit.
     let minScore = nullish (p_minScore params) (25 / 100);
         queries = task # take 10 contextItems in
     and_then (generateEmbeddings cfg provider queries) (\<lambda>embeddings.
     and_then (stored (search_each cfg cdist now
                 (nat \<lceil>real_of_int limit / real (length queries)\<rceil> + 5) minScore d
                 (zip embeddings queries) [])) (\<lambda>allResults.
     Inr (task, combine (nat limit) allResults)))))"

definition recall_context_handler ::
  "config \<Rightarrow> (string \<Rightarrow> string + real list) \<Rightarrow> (real list \<Rightarrow> real list \<Rightarrow> real) \<Rightarrow> real
     \<Rightarrow> tool_params \<Rightarrow> db \<Rightarrow> recall_success response \<times> db \<times> sql_error list" where
  "recall_context_handler cfg provider cdist now params d =
     (case recall_context_combined cfg provider cdist now params d of
        Inl e \<Rightarrow> (Failure e, d, [])
      | Inr (task, combined) \<Rightarrow>
          (let (d', console) =
                 (if length combined > 0
                  then fire_and_forget
                         (batchUpdateAccess now (map (\<lambda>en. mem_id (row (entry_row en))) combined)
                            (Some task) d) d
                  else (d, []))
           in (Success \<lparr> rs_task = task,
                          rs_contextQueries = length (nullish (p_context params) []),
                          rs_count = length combined,
                          rs_memories = map recall_view_of combined \<rparr>, d', console)))"

subsection \<open>tools/get_related.js\<close>

record related_entry =
  re_id :: string
  re_content :: string
  re_summary :: "string option"
  re_tags :: "string list option"
  relationType :: "string option"
  relationStrength :: "real option"
  relationDirection :: "string option"
  re_similarity :: "real option"
  re_source :: string

definition explicit_entry :: "string \<Rightarrow> relation_row \<Rightarrow> related_entry" where
  "explicit_entry memoryId rel =
     (let isSource = (source_memory_id (edge rel) = memoryId)
      in \<lparr> re_id = (if isSource then target_memory_id (edge rel) else source_memory_id (edge rel)),
           re_content = (if isSource then target_content rel else source_content rel),
           re_summary = (if isSource then target_summary rel else source_summary rel),
           re_tags = None,
           relationType = Some (relation_type (edge rel)),
           relationStrength = Some (strength (edge rel)),
           relationDirection = Some (if isSource then ''outgoing'' else ''incoming''),
           re_similarity = None,
           re_source = ''explicit'' \<rparr>)"

definition semantic_entry :: "similar_row \<Rightarrow> related_entry" where
  "semantic_entry mem =
     \<lparr> re_id = mem_id (similar_memory mem),
       re_content = content (similar_memory mem),
       re_summary = summary (similar_memory mem),
       re_tags = Some (tags (similar_memory mem)),
       relationType = None,
       relationStrength = None,
       relationDirection = None,
       re_similarity = Some (toFixed4 (similarity mem)),
       re_source = ''semantic'' \<rparr>"

definition push_similar :: "related_entry list \<Rightarrow> similar_row \<Rightarrow> related_entry list" where
  "push_similar related mem =
     (if find (\<lambda>r. re_id r = mem_id (similar_memory mem)) related = None
      then related @ [semantic_entry mem] else related)"

text \<open>\<open>a.relationStrength || a.similarity || 0\<close>: an absent number and zero are falsy.\<close>

definition sort_score :: "related_entry \<Rightarrow> real" where
  "sort_score a =
     (case relationStrength a of
        Some x \<Rightarrow> if x \<noteq> 0 then x
                 else (case re_similarity a of Some y \<Rightarrow> y | None \<Rightarrow> 0)
      | None \<Rightarrow> (case re_similarity a of Some y \<Rightarrow> y | None \<Rightarrow> 0))"

record related_success =
  gr_memoryId :: string
  gr_sourceContent :: string
  gr_sourceSummary :: "string option"
  gr_count :: nat
  gr_related :: "related_entry list"

definition get_related_handler ::
  "(real list \<Rightarrow> real list \<Rightarrow> real) \<Rightarrow> tool_params \<Rightarrow> db \<Rightarrow> related_success response" where
  "get_related_handler cdist params d =
     (case and_then (validated (validateUUID (p_memoryId params))) (\<lambda>memoryId.
           and_then (validated (validateLimit (p_limit params) 50)) (\<lambda>limit.
           Inr (memoryId, limit))) of
        Inl e \<Rightarrow> Failure e
      | Inr (memoryId, limit) \<Rightarrow>
          (let includeExplicit = (p_includeExplicit params \<noteq> Some False);
               includeSimilar = (p_includeSimilar params \<noteq> Some False)
           in case getById memoryId d of
                None \<Rightarrow> Failure (NotFoundError memoryId)
              | Some sourceMemory \<Rightarrow>
                  (let explicit = (if includeExplicit
                                   then map (explicit_entry memoryId) (getByMemory memoryId Both d)
                                   else []);
                       related = (if includeSimilar
                                  then foldl push_similar explicit (getRelated cdist memoryId (nat limit) d)
                                  else explicit);
                       sorted_entries = take (nat limit) (sort_key (\<lambda>a. - sort_score a) related)
                   in Success \<lparr> gr_memoryId = memoryId,
                                 gr_sourceContent = content sourceMemory,
                                 gr_sourceSummary = summary sourceMemory,
                                 gr_count = length sorted_entries,
                                 gr_related = sorted_entries \<rparr>)))"

subsection \<open>tools/store_memory.js\<close>



subsection \<open>The merge loop as a fold over single results\<close>

text \<open>
  The pairs (query text, row) in the order in which the two nested loops of
  \<open>recall_context\<close> visit them.
\<close>

definition observations :: "(string \<times> search_row list) list \<Rightarrow> (string \<times> search_row) list" where
  "observations answered = concat (map (\<lambda>(queryText, results). map (Pair queryText) results) answered)"

text \<open>
  The loop invariant: after the pairs \<open>seen\<close>, the map holds every memory seen once,
  under its own id, with a row and query text that were seen together and whose score
  no other seen row of that memory exceeds.
\<close>

definition kept_best :: "(string \<times> search_row) list \<Rightarrow> (string \<times> recall_entry) list \<Rightarrow> bool" where
  "kept_best seen allResults \<longleftrightarrow>
     distinct (map fst allResults) \<and>
     (\<forall>k en. map_of allResults k = Some en \<longrightarrow>
        k = mem_id (row (entry_row en)) \<and>
        (matchedQuery en, entry_row en) \<in> set seen \<and>
        (\<forall>(q, r)\<in>set seen. mem_id (row r) = k \<longrightarrow> hybrid_score r \<le> hybrid_score (entry_row en))) \<and>
     (\<forall>(q, r)\<in>set seen. map_of allResults (mem_id (row r)) \<noteq> None)"

section \<open>Example stores\<close>

text \<open>
  Concrete inputs for the worked examples below. \<open>unit_distance\<close> stands in for the
  cosine distance: zero between equal vectors, one otherwise.
\<close>

definition unit_distance :: "real list \<Rightarrow> real list \<Rightarrow> real" where
  "unit_distance a b = (if a = b then 0 else 1)"

definition blank_memory :: memory where
  "blank_memory =
     \<lparr> mem_id = [], content = ''note'', summary = None, embedding = [1, 0], metadata = [],
       tags = [], source = None, importance = 1 / 2, access_count = 0,
       reinforcement_count = 0, created_at = 0, last_accessed = 0, last_reinforced = None,
       expires_at = None, deleted_at = None \<rparr>"

definition empty_db :: db where
  "empty_db = \<lparr> memories = [], memory_relations = [], memory_access_log = [] \<rparr>"

definition no_params :: tool_params where
  "no_params =
     \<lparr> p_query = None, p_task = None, p_context = None, p_limit = None, p_minScore = None,
       p_tags = None, p_source = None, p_memoryId = None, p_includeExplicit = None,
       p_includeSimilar = None, p_content = None, p_summary = None, p_importance = None,
       p_metadata = None \<rparr>"

definition query_args :: "real list \<Rightarrow> search_args" where
  "query_args e =
     \<lparr> q_embedding = e, q_limit = None, q_minScore = None, q_tags = None, q_source = None \<rparr>"



text \<open>Memories that differ in tags, source and deletion.\<close>

definition filter_db :: db where
  "filter_db =
     empty_db\<lparr> memories :=
       [blank_memory\<lparr> mem_id := ''a'', tags := [''x''], source := Some ''chat'' \<rparr>,
        blank_memory\<lparr> mem_id := ''b'', tags := [''y''], source := Some ''chat'' \<rparr>,
        blank_memory\<lparr> mem_id := ''c'', tags := [''x''], source := Some ''web'' \<rparr>,
        blank_memory\<lparr> mem_id := ''d'', tags := [''x''], source := Some ''chat'',
                       deleted_at := Some 0 \<rparr>] \<rparr>"



text \<open>A memory stored with importance 0, and one with importance 0.02.\<close>

definition zero_db :: db where
  "zero_db = empty_db\<lparr> memories := [blank_memory\<lparr> mem_id := ''m'', importance := 0 \<rparr>] \<rparr>"

definition faint_db :: db where
  "faint_db = empty_db\<lparr> memories := [blank_memory\<lparr> mem_id := ''m'', importance := 2 / 100 \<rparr>] \<rparr>"

text \<open>
  A recall over two queries. \<open>dot_distance\<close> is the cosine distance of unit vectors; the
  embedding service answers with a unit vector along the first axis for the task and
  along the second for anything else. The memory \<open>x\<close> lies between the axes.
\<close>

definition dot_distance :: "real list \<Rightarrow> real list \<Rightarrow> real" where
  "dot_distance a b = 1 - sum_list (map (\<lambda>(x, y). x * y) (zip a b))"

definition axis_provider :: "string \<Rightarrow> string + real list" where
  "axis_provider t = Inr (if t = ''theme'' then [1, 0] else [0, 1])"

definition plane_config :: config where
  "plane_config = default_config\<lparr> embeddingDimension := 2 \<rparr>"

definition recall_db :: db where
  "recall_db =
     empty_db\<lparr> memories :=
       [blank_memory\<lparr> mem_id := ''x'', embedding := [3 / 5, 4 / 5] \<rparr>,
        blank_memory\<lparr> mem_id := ''y'', embedding := [1, 0] \<rparr>] \<rparr>"

definition recall_params :: tool_params where
  "recall_params = no_params\<lparr> p_task := Some ''theme'', p_context := Some [''colours''] \<rparr>"

text \<open>
  An active memory with an outgoing relation to a memory that was soft-deleted later.
\<close>

definition uuid_a :: string where
  "uuid_a = ''00000000-0000-4000-8000-00000000000a''"

definition uuid_b :: string where
  "uuid_b = ''00000000-0000-4000-8000-00000000000b''"

definition related_db :: db where
  "related_db =
     empty_db\<lparr> memories :=
                 [blank_memory\<lparr> mem_id := uuid_a \<rparr>,
                  blank_memory\<lparr> mem_id := uuid_b, content := ''forgotten'',
                                 deleted_at := Some 0 \<rparr>],
               memory_relations :=
                 [\<lparr> source_memory_id = uuid_a, target_memory_id = uuid_b,
                    relation_type = ''related_to'', strength = 1 / 2 \<rparr>] \<rparr>"

definition related_params :: tool_params where
  "related_params = no_params\<lparr> p_memoryId := Some uuid_a \<rparr>"

text \<open>
  The results of the two queries of the recall above: \<open>x\<close> is found by both, with hybrid
  scores 0.68 and 0.84.
\<close>

definition x_memory :: memory where
  "x_memory = blank_memory\<lparr> mem_id := ''x'', embedding := [3 / 5, 4 / 5] \<rparr>"

definition y_memory :: memory where
  "y_memory = blank_memory\<lparr> mem_id := ''y'', embedding := [1, 0] \<rparr>"

definition answered_example :: "(string \<times> search_row list) list" where
  "answered_example =
     [(''theme'',
       [\<lparr> row = y_memory, semantic_score = 1, recency_score = 1, hybrid_score = 1 \<rparr>,
        \<lparr> row = x_memory, semantic_score = 3 / 5, recency_score = 1, hybrid_score = 17 / 25 \<rparr>]),
      (''colours'',
       [\<lparr> row = x_memory, semantic_score = 4 / 5, recency_score = 1, hybrid_score = 21 / 25 \<rparr>])]"







section \<open>Properties of the scoring engine\<close>







lemma set_order_by [simp]: "set (order_by_hybrid_desc rows) = set rows"
  by (simp add: order_by_hybrid_desc_def)










section \<open>Properties of search\<close>







lemma row_scored [simp]: "row (scored cfg cdist now q m) = m"
  by (simp add: scored_def)





section \<open>Properties of the limit parameter\<close>




lemma validateLimit_error:
  assumes "validateLimit l mx = Inl e"
  shows "e = LimitNotPositive"
  using assms by (auto simp: validateLimit_def split: option.splits if_splits)















section \<open>Properties of reinforce and decay\<close>

lemma update_memories_result:
  assumes "update_memories sel f d = Inr (r, d')"
  shows "memories d' = map (\<lambda>m. if sel m then f m else m) (memories d)"
    and "\<forall>m\<in>set (memories d). sel m \<longrightarrow> importance_check (f m)"
  using assms by (auto simp: update_memories_def Let_def list_all_iff split: if_splits)

lemma update_memories_accepts:
  assumes "\<forall>m\<in>set (memories d). sel m \<longrightarrow> importance_check (f m)"
  shows "\<exists>r d'. update_memories sel f d = Inr (r, d')"
  using assms by (auto simp: update_memories_def Let_def list_all_iff)

lemma apply_op_cases:
  "memories (apply_op now ident d op) = memories d \<or>
   (\<exists>f. memories (apply_op now ident d op) =
           map (\<lambda>m. if mem_id m = ident \<and> deleted_at m = None then f m else m) (memories d) \<and>
        (\<forall>m\<in>set (memories d). mem_id m = ident \<and> deleted_at m = None \<longrightarrow>
            importance_check (f m) \<and> mem_id (f m) = mem_id m \<and>
            (case op of
               Reinforce b \<Rightarrow> importance (f m) = min (importance m + b) 1
             | Decay k \<Rightarrow> importance (f m) = max (importance m * k) (1 / 100))))"
proof (cases op)
  case (Reinforce b)
  let ?f = "\<lambda>m. m\<lparr> importance := min (importance m + b) 1,
                    reinforcement_count := reinforcement_count m + 1,
                    last_reinforced := Some now, last_accessed := now \<rparr>"
  show ?thesis
  proof (cases "reinforce now ident (Some b) d")
    case (Inl e)
    then show ?thesis using Reinforce by (simp add: apply_op_def)
  next
    case (Inr p)
    obtain r d' where p: "p = (r, d')" by (cases p)
    have u: "update_memories (\<lambda>m. mem_id m = ident \<and> deleted_at m = None) ?f d = Inr (r, d')"
      using Inr p by (simp add: reinforce_def nullish_def)
    have "apply_op now ident d op = d'" using Reinforce Inr p by (simp add: apply_op_def)
    then show ?thesis
      using update_memories_result [OF u] Reinforce
      by (intro disjI2 exI [of _ ?f]) auto
  qed
next
  case (Decay k)
  let ?f = "\<lambda>m. m\<lparr> importance := max (importance m * k) (1 / 100) \<rparr>"
  show ?thesis
  proof (cases "decay ident (Some k) d")
    case (Inl e)
    then show ?thesis using Decay by (simp add: apply_op_def)
  next
    case (Inr p)
    obtain r d' where p: "p = (r, d')" by (cases p)
    have u: "update_memories (\<lambda>m. mem_id m = ident \<and> deleted_at m = None) ?f d = Inr (r, d')"
      using Inr p by (simp add: decay_def nullish_def)
    have "apply_op now ident d op = d'" using Decay Inr p by (simp add: apply_op_def)
    then show ?thesis
      using update_memories_result [OF u] Decay
      by (intro disjI2 exI [of _ ?f]) auto
  qed
qed

lemma apply_op_check:
  assumes "list_all importance_check (memories d)"
  shows "list_all importance_check (memories (apply_op now ident d op))"
  using apply_op_cases [of now ident d op] assms
  by (auto simp: list_all_iff)

lemma apply_op_floor:
  assumes "list_all (\<lambda>m. mem_id m = ident \<longrightarrow> 1 / 100 \<le> importance m \<and> importance m \<le> 1) (memories d)"
    and "\<And>b. op = Reinforce b \<Longrightarrow> 0 \<le> b"
  shows "list_all (\<lambda>m. mem_id m = ident \<longrightarrow> 1 / 100 \<le> importance m \<and> importance m \<le> 1)
           (memories (apply_op now ident d op))"
proof -
  let ?P = "\<lambda>m. mem_id m = ident \<longrightarrow> 1 / 100 \<le> importance m \<and> importance m \<le> 1"
  from apply_op_cases [of now ident d op]
  consider "memories (apply_op now ident d op) = memories d"
    | f where "memories (apply_op now ident d op) =
           map (\<lambda>m. if mem_id m = ident \<and> deleted_at m = None then f m else m) (memories d)"
        and "\<forall>m\<in>set (memories d). mem_id m = ident \<and> deleted_at m = None \<longrightarrow>
            importance_check (f m) \<and> mem_id (f m) = mem_id m \<and>
            (case op of
               Reinforce b \<Rightarrow> importance (f m) = min (importance m + b) 1
             | Decay k \<Rightarrow> importance (f m) = max (importance m * k) (1 / 100))"
    by blast
  then show ?thesis
  proof cases
    case 1
    then show ?thesis using assms(1) by simp
  next
    case 2
    have "?P (f m)" if m: "m \<in> set (memories d)" "mem_id m = ident" "deleted_at m = None" for m
    proof -
      have old: "1 / 100 \<le> importance m" using assms(1) m by (auto simp: list_all_iff)
      have chk: "importance_check (f m)" using 2(2) m by blast
      have "1 / 100 \<le> importance (f m)"
      proof (cases op)
        case (Reinforce b)
        then have "importance (f m) = min (importance m + b) 1" using 2(2) m by auto
        moreover have "0 \<le> b" using assms(2) Reinforce by simp
        ultimately show ?thesis using old by simp
      next
        case (Decay k)
        then have "importance (f m) = max (importance m * k) (1 / 100)" using 2(2) m by auto
        then show ?thesis by simp
      qed
      then show ?thesis using chk by (simp add: importance_check_def)
    qed
    then show ?thesis using assms(1) unfolding 2(1) by (auto simp: list_all_iff)
  qed
qed

lemma apply_ops_check:
  assumes "list_all importance_check (memories d)"
  shows "list_all importance_check (memories (apply_ops now ident ops d))"
  using assms unfolding apply_ops_def
  by (induction ops arbitrary: d) (simp_all add: apply_op_check)

lemma apply_ops_floor:
  assumes "list_all (\<lambda>m. mem_id m = ident \<longrightarrow> 1 / 100 \<le> importance m \<and> importance m \<le> 1) (memories d)"
    and "list_all (\<lambda>op. case op of Reinforce b \<Rightarrow> 0 \<le> b | Decay k \<Rightarrow> True) ops"
  shows "list_all (\<lambda>m. mem_id m = ident \<longrightarrow> 1 / 100 \<le> importance m \<and> importance m \<le> 1)
           (memories (apply_ops now ident ops d))"
  using assms unfolding apply_ops_def
proof (induction ops arbitrary: d)
  case Nil
  then show ?case by simp
next
  case (Cons op ops)
  have "list_all (\<lambda>m. mem_id m = ident \<longrightarrow> 1 / 100 \<le> importance m \<and> importance m \<le> 1)
           (memories (apply_op now ident d op))"
    using Cons.prems by (intro apply_op_floor) auto
  then show ?case using Cons.IH Cons.prems(2) by simp
qed


lemma reinforce_effect:
  assumes "reinforce now ident (Some b) d = Inr (r, d')"
  shows "memories d' =
           map (\<lambda>m. if mem_id m = ident \<and> deleted_at m = None
                     then m\<lparr> importance := min (importance m + b) 1,
                             reinforcement_count := reinforcement_count m + 1,
                             last_reinforced := Some now, last_accessed := now \<rparr>
                     else m) (memories d)"
  using assms by (auto simp: reinforce_def nullish_def dest: update_memories_result(1))

lemma decay_effect:
  assumes "decay ident (Some k) d = Inr (r, d')"
  shows "memories d' =
           map (\<lambda>m. if mem_id m = ident \<and> deleted_at m = None
                     then m\<lparr> importance := max (importance m * k) (1 / 100) \<rparr>
                     else m) (memories d)"
  using assms by (auto simp: decay_def nullish_def dest: update_memories_result(1))

lemma reinforce_accepted:
  assumes "list_all importance_check (memories d)" and "0 \<le> b"
  shows "\<exists>r d'. reinforce now ident (Some b) d = Inr (r, d')"
  unfolding reinforce_def nullish_def Let_def option.case
  using assms
  by (intro update_memories_accepts) (auto simp: list_all_iff importance_check_def)

lemma decay_accepted:
  assumes "list_all importance_check (memories d)" and "k \<le> 1"
  shows "\<exists>r d'. decay ident (Some k) d = Inr (r, d')"
  unfolding decay_def nullish_def Let_def option.case
proof (intro update_memories_accepts ballI impI)
  fix m assume "m \<in> set (memories d)"
  then have i: "0 \<le> importance m" "importance m \<le> 1"
    using assms(1) by (auto simp: list_all_iff importance_check_def)
  have "importance m * k \<le> importance m * 1"
    using i(1) assms(2) by (rule mult_left_mono [rotated])
  then have "importance m * k \<le> 1" using i(2) by simp
  then show "importance_check (m\<lparr> importance := max (importance m * k) (1 / 100) \<rparr>)"
    by (simp add: importance_check_def)
qed

text \<open>
  Claim C6, as the code has it. In a store whose rows satisfy the importance check of
  the schema (\<open>0 \<le> importance \<le> 1\<close>), every sequence of reinforce and decay calls keeps
  every importance within \<open>[0, 1]\<close>. The importance of the memory stays within
  \<open>[0.01, 1]\<close> when it starts at 0.01 or above and no boost is negative. A reinforce
  call that the database accepts sets the importance of the non-deleted memory to
  \<open>min (importance + boost) 1\<close>, an accepted decay sets it to
  \<open>max (importance * decayFactor) 0.01\<close>; a reinforce with a boost of at least 0 and a
  decay with a factor of at most 1 are accepted.
\<close>

theorem lifecycle_importance_bounds:
  assumes "list_all importance_check (memories d)"
  shows "list_all importance_check (memories (apply_ops now ident ops d))
     \<and> (list_all (\<lambda>m. mem_id m = ident \<longrightarrow> 1 / 100 \<le> importance m) (memories d) \<and>
        list_all (\<lambda>op. case op of Reinforce boost \<Rightarrow> 0 \<le> boost | Decay decayFactor \<Rightarrow> True) ops \<longrightarrow>
        list_all (\<lambda>m. mem_id m = ident \<longrightarrow> 1 / 100 \<le> importance m \<and> importance m \<le> 1)
          (memories (apply_ops now ident ops d)))
     \<and> (\<forall>r d'. reinforce now ident (Some b) d = Inr (r, d') \<longrightarrow>
          memories d' =
            map (\<lambda>m. if mem_id m = ident \<and> deleted_at m = None
                      then m\<lparr> importance := min (importance m + b) 1,
                              reinforcement_count := reinforcement_count m + 1,
                              last_reinforced := Some now, last_accessed := now \<rparr>
                      else m) (memories d))
     \<and> (\<forall>r d'. decay ident (Some k) d = Inr (r, d') \<longrightarrow>
          memories d' =
            map (\<lambda>m. if mem_id m = ident \<and> deleted_at m = None
                      then m\<lparr> importance := max (importance m * k) (1 / 100) \<rparr>
                      else m) (memories d))
     \<and> (0 \<le> b \<longrightarrow> (\<exists>r d'. reinforce now ident (Some b) d = Inr (r, d')))
     \<and> (k \<le> 1 \<longrightarrow> (\<exists>r d'. decay ident (Some k) d = Inr (r, d')))"
proof (intro conjI impI allI)
  show "list_all importance_check (memories (apply_ops now ident ops d))"
    by (rule apply_ops_check [OF assms])
next
  assume a: "list_all (\<lambda>m. mem_id m = ident \<longrightarrow> 1 / 100 \<le> importance m) (memories d) \<and>
        list_all (\<lambda>op. case op of Reinforce boost \<Rightarrow> 0 \<le> boost | Decay decayFactor \<Rightarrow> True) ops"
  have "list_all (\<lambda>m. mem_id m = ident \<longrightarrow> 1 / 100 \<le> importance m \<and> importance m \<le> 1) (memories d)"
    using a assms by (auto simp: list_all_iff importance_check_def)
  then show "list_all (\<lambda>m. mem_id m = ident \<longrightarrow> 1 / 100 \<le> importance m \<and> importance m \<le> 1)
          (memories (apply_ops now ident ops d))"
    using a by (intro apply_ops_floor) simp_all
next
  fix r d' assume "reinforce now ident (Some b) d = Inr (r, d')"
  then show "memories d' =
            map (\<lambda>m. if mem_id m = ident \<and> deleted_at m = None
                      then m\<lparr> importance := min (importance m + b) 1,
                              reinforcement_count := reinforcement_count m + 1,
                              last_reinforced := Some now, last_accessed := now \<rparr>
                      else m) (memories d)"
    by (rule reinforce_effect)
next
  fix r d' assume "decay ident (Some k) d = Inr (r, d')"
  then show "memories d' =
            map (\<lambda>m. if mem_id m = ident \<and> deleted_at m = None
                      then m\<lparr> importance := max (importance m * k) (1 / 100) \<rparr>
                      else m) (memories d)"
    by (rule decay_effect)
next
  assume "0 \<le> b"
  then show "\<exists>r d'. reinforce now ident (Some b) d = Inr (r, d')"
    by (rule reinforce_accepted [OF assms])
next
  assume "k \<le> 1"
  then show "\<exists>r d'. decay ident (Some k) d = Inr (r, d')"
    by (rule decay_accepted [OF assms])
qed

theorem lifecycle_importance_bounds_witness:
  "list_all importance_check (memories faint_db) \<and>
   list_all (\<lambda>m. mem_id m = ''m'' \<longrightarrow> 1 / 100 \<le> importance m) (memories faint_db) \<and>
   list_all (\<lambda>op. case op of Reinforce boost \<Rightarrow> 0 \<le> boost | Decay decayFactor \<Rightarrow> True)
     [Decay (1 / 10), Reinforce (1 / 10)] \<and>
   list_all importance_check
     (memories (apply_ops 0 ''m'' [Decay (1 / 10), Reinforce (1 / 10)] faint_db)) \<and>
   list_all (\<lambda>m. mem_id m = ''m'' \<longrightarrow> 1 / 100 \<le> importance m \<and> importance m \<le> 1)
     (memories (apply_ops 0 ''m'' [Decay (1 / 10), Reinforce (1 / 10)] faint_db)) \<and>
   map importance (memories (apply_ops 0 ''m'' [Decay (1 / 10)] faint_db)) = [1 / 100] \<and>
   map importance (memories (apply_ops 0 ''m'' [Decay (1 / 10), Reinforce (1 / 10)] faint_db))
     = [11 / 100] \<and>
   (0 :: real) \<le> 1 / 10 \<and> (1 / 10 :: real) \<le> 1 \<and>
   (\<exists>r d'. reinforce 0 ''m'' (Some (1 / 10)) faint_db = Inr (r, d')) \<and>
   (\<exists>r d'. decay ''m'' (Some (1 / 10)) faint_db = Inr (r, d'))"
proof -
  have h: "list_all importance_check (memories faint_db)"
    by (simp add: faint_db_def empty_db_def blank_memory_def importance_check_def)
  have h1: "list_all (\<lambda>m. mem_id m = ''m'' \<longrightarrow> 1 / 100 \<le> importance m) (memories faint_db)"
    by (simp add: faint_db_def empty_db_def blank_memory_def)
  have h2: "list_all (\<lambda>op. case op of Reinforce boost \<Rightarrow> 0 \<le> boost | Decay decayFactor \<Rightarrow> True)
     [Decay (1 / 10), Reinforce (1 / 10)]"
    by simp
  note t = lifecycle_importance_bounds [OF h, of 0 "''m''" "[Decay (1 / 10), Reinforce (1 / 10)]"
      "1 / 10" "1 / 10"]
  have c1: "list_all importance_check
     (memories (apply_ops 0 ''m'' [Decay (1 / 10), Reinforce (1 / 10)] faint_db))"
    using t by blast
  have c2: "list_all (\<lambda>m. mem_id m = ''m'' \<longrightarrow> 1 / 100 \<le> importance m \<and> importance m \<le> 1)
     (memories (apply_ops 0 ''m'' [Decay (1 / 10), Reinforce (1 / 10)] faint_db))"
    using t h1 h2 by blast
  have c3: "map importance (memories (apply_ops 0 ''m'' [Decay (1 / 10)] faint_db)) = [1 / 100]"
    by (simp add: faint_db_def empty_db_def blank_memory_def apply_ops_def apply_op_def decay_def
          update_memories_def importance_check_def first_row_def nullish_def Let_def)
  have c4: "map importance (memories (apply_ops 0 ''m'' [Decay (1 / 10), Reinforce (1 / 10)] faint_db))
     = [11 / 100]"
    by (simp add: faint_db_def empty_db_def blank_memory_def apply_ops_def apply_op_def decay_def
          reinforce_def update_memories_def importance_check_def first_row_def nullish_def Let_def)
  have z1: "(0 :: real) \<le> 1 / 10" and z2: "(1 / 10 :: real) \<le> 1" by simp_all
  have c5: "\<exists>r d'. reinforce 0 ''m'' (Some (1 / 10)) faint_db = Inr (r, d')"
    using t z1 by blast
  have c6: "\<exists>r d'. decay ''m'' (Some (1 / 10)) faint_db = Inr (r, d')"
    using t z2 by blast
  show ?thesis
    by (intro conjI) (rule h h1 h2 c1 c2 c3 c4 z1 z2 c5 c6)+
qed

text \<open>
  Claim C6 as stated fails: the floor 0.01 is applied by decay only. A memory may be
  stored with importance 0 (\<open>validateImportance\<close> accepts it), and reinforcing it by
  0.005 leaves it at 0.005, below 0.01.
\<close>

theorem importance_below_floor:
  "validateImportance (Some 0) = Inr 0 \<and>
   map importance (memories zero_db) = [0] \<and>
   map importance (memories (apply_ops 0 ''m'' [Reinforce (5 / 1000)] zero_db)) = [5 / 1000] \<and>
   \<not> (1 / 100 \<le> (5 / 1000 :: real))"
  by (simp add: validateImportance_def zero_db_def empty_db_def blank_memory_def apply_ops_def
        apply_op_def reinforce_def update_memories_def importance_check_def first_row_def
        nullish_def Let_def)

section \<open>Properties of the access ledger\<close>

lemma fold_max_start: "a \<le> fold max xs (a :: nat)"
  by (induction xs arbitrary: a) (auto intro: order_trans [OF max.cobounded2])

lemma fold_max_ge: "x \<in> set xs \<Longrightarrow> x \<le> fold max xs (a :: nat)"
proof (induction xs arbitrary: a)
  case Nil
  then show ?case by simp
next
  case (Cons y ys)
  show ?case
  proof (cases "x = y")
    case True
    have "y \<le> max y a" by simp
    also have "\<dots> \<le> fold max ys (max y a)" by (rule fold_max_start)
    finally show ?thesis using True by simp
  next
    case False
    then show ?thesis using Cons by simp
  qed
qed

lemma batch_placeholders:
  "set (placeholders (map (\<lambda>i. \<lparr> memory_id_placeholder = i * 2 + 1,
                                 query_text_placeholder = n * 2 + 1,
                                 similarity_placeholder = None \<rparr>) [0..<n]))
     = (\<lambda>i. i * 2 + 1) ` {0..<n} \<union> (if n = 0 then {} else {n * 2 + 1})"
  by (auto simp: placeholders_def)

lemma prepare_gap:
  assumes "1 \<in> set used" and "2 \<notin> set used" and "k \<in> set used" and "3 \<le> k"
  shows "prepare_and_bind used params = Inl (IndeterminateParameter 2)"
proof -
  let ?n = "fold max used 0"
  have "3 \<le> ?n" using fold_max_ge [OF assms(3), of 0] assms(4) by simp
  then have "[1..<Suc ?n] = 1 # 2 # [3..<Suc ?n]"
    by (simp add: upt_conv_Cons numeral_2_eq_2 numeral_3_eq_3)
  then have "filter (\<lambda>k. k \<notin> set used) [1..<Suc ?n] = 2 # filter (\<lambda>k. k \<notin> set used) [3..<Suc ?n]"
    using assms(1,2) by simp
  then show ?thesis by (simp add: prepare_and_bind_def Let_def)
qed

lemma batchUpdateAccess_rejected:
  assumes "ids \<noteq> []"
  shows "batchUpdateAccess now ids queryText d = Inl (IndeterminateParameter 2)"
proof -
  let ?n = "length ids"
  let ?tuples = "map (\<lambda>i. \<lparr> memory_id_placeholder = i * 2 + 1,
                                 query_text_placeholder = ?n * 2 + 1,
                                 similarity_placeholder = None \<rparr>) [0..<?n]"
  have n: "0 < ?n" using assms by simp
  have used: "set (placeholders ?tuples) = (\<lambda>i. i * 2 + 1) ` {0..<?n} \<union> {?n * 2 + 1}"
    by (subst batch_placeholders) (use n in simp)
  have one: "1 \<in> set (placeholders ?tuples)"
    unfolding used using n by (auto simp: image_iff)
  have two: "2 \<notin> set (placeholders ?tuples)"
    unfolding used by (auto simp: image_iff)
  have n1: "Suc 0 \<le> length ids" using assms by (cases ids) simp_all
  have big: "?n * 2 + 1 \<in> set (placeholders ?tuples)" "3 \<le> ?n * 2 + 1"
    unfolding used using n1 by auto
  have "prepare_and_bind (placeholders ?tuples) (map SqlText ids @ [text_or_null queryText])
          = Inl (IndeterminateParameter 2)"
    by (rule prepare_gap [OF one two big])
  then show ?thesis
    using assms by (simp add: batchUpdateAccess_def insert_access_log_def Let_def)
qed

lemma updateAccess_records:
  assumes "ident \<in> set (map mem_id (memories d))"
  shows "updateAccess now ident queryText sim d =
           Inr (insert_access_event now d
                  \<lparr> memory_id = ident, access_type = ''search'', query_text = queryText,
                    similarity_score = sim, accessed_at = now \<rparr>)"
proof -
  have q: "(case text_or_null queryText of SqlText q \<Rightarrow> Some q | _ \<Rightarrow> None) = queryText"
    by (cases queryText) (simp_all add: text_or_null_def)
  have s: "(case number_or_null sim of SqlNumber x \<Rightarrow> Some x | _ \<Rightarrow> None) = sim"
    by (cases sim) (simp_all add: number_or_null_def)
  show ?thesis
    using assms
    by (simp add: updateAccess_def insert_access_log_def prepare_and_bind_def placeholders_def
          tuple_event_def q s upt_conv_Cons Let_def del: upt_Suc)
qed


lemmas recall_eval_defs =
  recall_context_combined_def and_then_def validated_def stored_def validateQuery_def
  validateLimit_def trim_def js_whitespace_def generateEmbeddings_def generateEmbedding_def
  normalizeEmbeddingDimension_def search_def candidate_pool_def score_row_def
  calculate_hybrid_score_def calculate_recency_score_def whereClause_def tags_condition_def
  source_condition_def order_by_hybrid_desc_def merge_results_def merge_result_def combine_def
  nullish_def plane_config_def default_config_def axis_provider_def dot_distance_def
  recall_db_def recall_params_def no_params_def empty_db_def blank_memory_def Let_def

lemma recall_example:
  "\<exists>en1 en2.
     recall_context_combined plane_config axis_provider dot_distance 0 recall_params recall_db
       = Inr (''theme'', [en1, en2]) \<and>
     map (\<lambda>en. (mem_id (row (entry_row en)), hybrid_score (entry_row en), matchedQuery en)) [en1, en2]
       = [(''y'', 1, ''theme''), (''x'', 21 / 25, ''colours'')]"
  by (simp add: recall_eval_defs)


text \<open>
  Claim C7 on the code. Whenever the final output of \<open>recall_context\<close> is not empty, the
  insert of \<open>batchUpdateAccess\<close> is refused: its text names the placeholders \<open>$1\<close>, \<open>$3\<close>,
  ... and \<open>$(2n+1)\<close> for \<open>n\<close> ids, never \<open>$2\<close>, and only \<open>n + 1\<close> values are bound. No
  access event is recorded and no counter moves: the store is left as it was. The
  response is the one computed before, and the rejection goes to the console.
\<close>

theorem recall_access_not_recorded:
  assumes "recall_context_combined cfg provider cdist now params d = Inr (task, combined)"
    and "combined \<noteq> []"
  shows "batchUpdateAccess now (map (\<lambda>en. mem_id (row (entry_row en))) combined) (Some task) d
           = Inl (IndeterminateParameter 2)
       \<and> recall_context_handler cfg provider cdist now params d =
           (Success \<lparr> rs_task = task,
                      rs_contextQueries = length (nullish (p_context params) []),
                      rs_count = length combined,
                      rs_memories = map recall_view_of combined \<rparr>,
            d, [IndeterminateParameter 2])"
proof -
  have ids: "map (\<lambda>en. mem_id (row (entry_row en))) combined \<noteq> []"
    using assms(2) by simp
  have rejected: "batchUpdateAccess now (map (\<lambda>en. mem_id (row (entry_row en))) combined) (Some task) d
           = Inl (IndeterminateParameter 2)"
    by (rule batchUpdateAccess_rejected [OF ids])
  have "0 < length combined" using assms(2) by simp
  then show ?thesis
    using rejected assms(1)
    by (simp add: recall_context_handler_def fire_and_forget_def)
qed

theorem recall_access_not_recorded_witness:
  "(\<exists>en1 en2.
      recall_context_combined plane_config axis_provider dot_distance 0 recall_params recall_db
        = Inr (''theme'', [en1, en2]) \<and> [en1, en2] \<noteq> [] \<and>
      recall_context_handler plane_config axis_provider dot_distance 0 recall_params recall_db =
        (Success \<lparr> rs_task = ''theme'',
                   rs_contextQueries = length (nullish (p_context recall_params) []),
                   rs_count = length [en1, en2],
                   rs_memories = map recall_view_of [en1, en2] \<rparr>,
         recall_db, [IndeterminateParameter 2])) \<and>
   memory_access_log recall_db = [] \<and>
   map access_count (memories recall_db) = [0, 0]"
proof -
  obtain en1 en2 where c:
    "recall_context_combined plane_config axis_provider dot_distance 0 recall_params recall_db
        = Inr (''theme'', [en1, en2])"
    using recall_example by blast
  have ne: "[en1, en2] \<noteq> []" by simp
  have log: "memory_access_log recall_db = []" "map access_count (memories recall_db) = [0, 0]"
    by (simp_all add: recall_db_def empty_db_def blank_memory_def)
  show ?thesis
    using c ne log recall_access_not_recorded [OF c ne] by blast
qed

section \<open>Soft-deleted memories in reads\<close>

lemma getRelated_excludes_deleted:
  assumes "r \<in> set (getRelated cdist ident limit d)"
  shows "deleted_at (similar_memory r) = None \<and> similar_memory r \<in> set (memories d)"
proof (cases "first_row (filter (\<lambda>m. mem_id m = ident \<and> deleted_at m = None) (memories d))")
  case None
  then show ?thesis using assms by (simp add: getRelated_def)
next
  case (Some memory)
  let ?rows = "sort_key (\<lambda>m. cdist (embedding m) (embedding memory))
                  (filter (\<lambda>m. mem_id m \<noteq> ident \<and> deleted_at m = None) (memories d))"
  have "similar_memory r \<in> set (take limit ?rows)"
    using assms Some by (auto simp: getRelated_def)
  then have "similar_memory r \<in> set ?rows" by (rule in_set_takeD)
  then show ?thesis by simp
qed

lemma validate_uuid_a: "validateUUID (Some uuid_a) = Inr uuid_a"
  by (simp add: validateUUID_def uuid_a_def uuidRegex_def hex_char_def toLowerCase_def
        numeral_eq_Suc)

text \<open>
  Claim C2 on the code. \<open>get_related\<close> on an active memory returns, through the explicit
  relation, the soft-deleted memory at the other end of the edge: \<open>getByMemory\<close> joins
  \<open>memories\<close> without the condition \<open>deleted_at IS NULL\<close> that every other read has.
\<close>

theorem get_related_returns_deleted:
  "\<exists>resp. get_related_handler unit_distance related_params related_db = Success resp \<and>
      map (\<lambda>en. (re_id en, re_content en, re_source en, relationDirection en)) (gr_related resp)
        = [(uuid_b, ''forgotten'', ''explicit'', Some ''outgoing'')] \<and>
      map (\<lambda>m. (mem_id m, deleted_at m)) (memories related_db)
        = [(uuid_a, None), (uuid_b, Some 0)]"
proof -
  have ne: "uuid_a \<noteq> uuid_b" "uuid_b \<noteq> uuid_a" by (simp_all add: uuid_a_def uuid_b_def)
  show ?thesis
    using ne
    by (simp add: get_related_handler_def related_params_def no_params_def validate_uuid_a
          validateLimit_def and_then_def validated_def getById_def first_row_def
          getByMemory_def getRelated_def explicit_entry_def push_similar_def sort_score_def
          related_db_def empty_db_def blank_memory_def Let_def)
qed

section \<open>Properties of the recall merge\<close>

lemma map_of_map_set: "map_of (map_set k v al) = (map_of al)(k \<mapsto> v)"
  by (induction al) (auto simp: fun_eq_iff)

lemma keys_map_set:
  "map fst (map_set k v al) = (if k \<in> fst ` set al then map fst al else map fst al @ [k])"
  by (induction al) force+

lemma distinct_map_set:
  assumes "distinct (map fst al)"
  shows "distinct (map fst (map_set k v al))"
  using assms by (auto simp: keys_map_set)

lemma foldl_merge_results:
  "foldl merge_results acc answered =
     foldl (\<lambda>a (q, r). merge_result q a r) acc (observations answered)"
proof (induction answered arbitrary: acc)
  case Nil
  then show ?case by (simp add: observations_def)
next
  case (Cons qa answered)
  obtain q rs where qa: "qa = (q, rs)" by (cases qa)
  have inner: "foldl (merge_result q) a rs = foldl (\<lambda>a (q, r). merge_result q a r) a (map (Pair q) rs)" for a
    by (induction rs arbitrary: a) simp_all
  have "observations (qa # answered) = map (Pair q) rs @ observations answered"
    by (simp add: observations_def qa)
  moreover have "merge_results acc (q, rs) = foldl (\<lambda>a (q, r). merge_result q a r) acc (map (Pair q) rs)"
    by (simp add: merge_results_def inner)
  ultimately show ?case
    by (simp add: Cons.IH qa)
qed

lemma kept_best_nil: "kept_best [] []"
  by (simp add: kept_best_def)

lemma kept_best_step:
  assumes "kept_best seen acc"
  shows "kept_best (seen @ [(q, r)]) (merge_result q acc r)"
proof -
  let ?k = "mem_id (row r)"
  let ?new = "\<lparr> entry_row = r, matchedQuery = q \<rparr>"
  have d: "distinct (map fst acc)"
    and old: "\<And>k en. map_of acc k = Some en \<Longrightarrow>
        k = mem_id (row (entry_row en)) \<and> (matchedQuery en, entry_row en) \<in> set seen \<and>
        (\<forall>(q, r)\<in>set seen. mem_id (row r) = k \<longrightarrow> hybrid_score r \<le> hybrid_score (entry_row en))"
    and cov: "\<And>q r. (q, r) \<in> set seen \<Longrightarrow> map_of acc (mem_id (row r)) \<noteq> None"
    using assms unfolding kept_best_def by blast+
  have replaced: "kept_best (seen @ [(q, r)]) (map_set ?k ?new acc)"
    if best: "\<And>q' r'. (q', r') \<in> set seen \<Longrightarrow> mem_id (row r') = ?k \<Longrightarrow> hybrid_score r' \<le> hybrid_score r"
  proof -
    have m: "map_of (map_set ?k ?new acc) = (map_of acc)(?k \<mapsto> ?new)"
      by (rule map_of_map_set)
    have f1: "distinct (map fst (map_set ?k ?new acc))" by (rule distinct_map_set [OF d])
    have f2: "k = mem_id (row (entry_row en)) \<and> (matchedQuery en, entry_row en) \<in> set (seen @ [(q, r)]) \<and>
        (\<forall>(q, r)\<in>set (seen @ [(q, r)]). mem_id (row r) = k \<longrightarrow> hybrid_score r \<le> hybrid_score (entry_row en))"
      if a: "((map_of acc)(?k \<mapsto> ?new)) k = Some en" for k en
    proof (cases "k = ?k")
      case True
      then have "en = ?new" using a by simp
      then show ?thesis using True best by auto
    next
      case False
      then have "map_of acc k = Some en" using a by simp
      then show ?thesis using old [of k en] False by auto
    qed
    have f3: "\<forall>(q, r)\<in>set (seen @ [(q, r)]). ((map_of acc)(?k \<mapsto> ?new)) (mem_id (row r)) \<noteq> None"
      using cov by auto
    show ?thesis
      unfolding kept_best_def m using f1 f2 f3 by blast
  qed
  show ?thesis
  proof (cases "map_of acc ?k")
    case None
    have "mem_id (row r') \<noteq> ?k" if "(q', r') \<in> set seen" for q' r'
      using cov [OF that] None by auto
    then have "kept_best (seen @ [(q, r)]) (map_set ?k ?new acc)"
      by (intro replaced) auto
    then show ?thesis using None by (simp add: merge_result_def)
  next
    case (Some existing)
    note ex = old [OF Some]
    show ?thesis
    proof (cases "hybrid_score r > hybrid_score (entry_row existing)")
      case True
      have "hybrid_score r' \<le> hybrid_score r" if "(q', r') \<in> set seen" "mem_id (row r') = ?k" for q' r'
      proof -
        have "hybrid_score r' \<le> hybrid_score (entry_row existing)" using ex that by auto
        then show ?thesis using True by simp
      qed
      then have "kept_best (seen @ [(q, r)]) (map_set ?k ?new acc)"
        by (intro replaced) auto
      then show ?thesis using Some True by (simp add: merge_result_def)
    next
      case False
      have g2: "k = mem_id (row (entry_row en)) \<and> (matchedQuery en, entry_row en) \<in> set (seen @ [(q, r)]) \<and>
          (\<forall>(q, r)\<in>set (seen @ [(q, r)]). mem_id (row r) = k \<longrightarrow> hybrid_score r \<le> hybrid_score (entry_row en))"
        if a: "map_of acc k = Some en" for k en
      proof (cases "k = ?k")
        case True
        then have "en = existing" using a Some by simp
        then show ?thesis using old [OF a] False True by auto
      next
        case False
        then show ?thesis using old [OF a] by auto
      qed
      have g3: "\<forall>(q, r)\<in>set (seen @ [(q, r)]). map_of acc (mem_id (row r)) \<noteq> None"
        using cov Some by auto
      have "kept_best (seen @ [(q, r)]) acc"
        unfolding kept_best_def using d g2 g3 by blast
      then show ?thesis using Some False by (simp add: merge_result_def)
    qed
  qed
qed

lemma kept_best_fold:
  assumes "kept_best seen acc"
  shows "kept_best (seen @ obs) (foldl (\<lambda>a (q, r). merge_result q a r) acc obs)"
  using assms
proof (induction obs arbitrary: seen acc)
  case Nil
  then show ?case by simp
next
  case (Cons p obs)
  obtain q r where o: "p = (q, r)" by (cases p)
  have "kept_best (seen @ [(q, r)]) (merge_result q acc r)"
    by (rule kept_best_step [OF Cons.prems])
  from Cons.IH [OF this] show ?case by (simp add: o)
qed

lemma kept_best_merged: "kept_best (observations answered) (foldl merge_results [] answered)"
  using kept_best_fold [OF kept_best_nil, of "observations answered"]
  by (simp add: foldl_merge_results)

lemma in_observations:
  "(q, r) \<in> set (observations answered) \<longleftrightarrow> (\<exists>rs. (q, rs) \<in> set answered \<and> r \<in> set rs)"
  by (auto simp: observations_def)



lemma merged_entries:
  assumes "(k, en) \<in> set (foldl merge_results [] answered)"
  shows "k = mem_id (row (entry_row en))"
    and "\<exists>rs. (matchedQuery en, rs) \<in> set answered \<and> entry_row en \<in> set rs"
    and "\<And>q rs r. (q, rs) \<in> set answered \<Longrightarrow> r \<in> set rs \<Longrightarrow>
           mem_id (row r) = mem_id (row (entry_row en)) \<Longrightarrow>
           hybrid_score r \<le> hybrid_score (entry_row en)"
proof -
  let ?merged = "foldl merge_results [] answered"
  have kb: "kept_best (observations answered) ?merged" by (rule kept_best_merged)
  then have d: "distinct (map fst ?merged)" by (simp add: kept_best_def)
  then have m: "map_of ?merged k = Some en" using assms by simp
  have all: "k = mem_id (row (entry_row en)) \<and>
        (matchedQuery en, entry_row en) \<in> set (observations answered) \<and>
        (\<forall>(q, r)\<in>set (observations answered). mem_id (row r) = k \<longrightarrow>
            hybrid_score r \<le> hybrid_score (entry_row en))"
    using kb m unfolding kept_best_def by blast
  show k: "k = mem_id (row (entry_row en))" using all by simp
  show "\<exists>rs. (matchedQuery en, rs) \<in> set answered \<and> entry_row en \<in> set rs"
    using all by (simp add: in_observations)
  show "hybrid_score r \<le> hybrid_score (entry_row en)"
    if "(q, rs) \<in> set answered" "r \<in> set rs" "mem_id (row r) = mem_id (row (entry_row en))" for q rs r
  proof -
    have "(q, r) \<in> set (observations answered)" using that by (auto simp: in_observations)
    then show ?thesis using all that(3) k by auto
  qed
qed





lemma combine_props:
  "set (combine limit al) \<subseteq> set (map snd al)"
  "sorted_wrt (\<lambda>a b. hybrid_score (entry_row b) \<le> hybrid_score (entry_row a)) (combine limit al)"
  "length (combine limit al) \<le> limit"
  "length al \<le> limit \<Longrightarrow> set (combine limit al) = set (map snd al)"
  "distinct (map g (map snd al)) \<Longrightarrow> distinct (map g (combine limit al))"
proof -
  let ?key = "\<lambda>en. - hybrid_score (entry_row en)"
  let ?s = "sort_key ?key (map snd al)"
  show "set (combine limit al) \<subseteq> set (map snd al)"
    using set_take_subset [of limit ?s] by (simp add: combine_def)
  have "sorted (map ?key ?s)" by (rule sorted_sort_key)
  then have "sorted_wrt (\<lambda>a b. hybrid_score (entry_row b) \<le> hybrid_score (entry_row a)) ?s"
    by (simp add: sorted_map)
  then show "sorted_wrt (\<lambda>a b. hybrid_score (entry_row b) \<le> hybrid_score (entry_row a)) (combine limit al)"
    unfolding combine_def by (rule sorted_wrt_take)
  show "length (combine limit al) \<le> limit" by (simp add: combine_def)
  show "set (combine limit al) = set (map snd al)" if "length al \<le> limit"
    using that by (simp add: combine_def)
  show "distinct (map g (combine limit al))" if dg: "distinct (map g (map snd al))"
  proof -
    have "mset ?s = mset (map snd al)" by simp
    then have "mset (map g ?s) = mset (map g (map snd al))" by (simp only: mset_map)
    from mset_eq_imp_distinct_iff [OF this] have "distinct (map g ?s)" using dg by blast
    then have "distinct (take limit (map g ?s))" by (rule distinct_take)
    then show ?thesis by (simp add: combine_def take_map)
  qed
qed


lemma collect_length:
  assumes "collect xs = Inr ys"
  shows "length ys = length xs"
  using assms by (induction xs arbitrary: ys) (auto split: sum.splits)

lemma search_each_answers:
  assumes "search_each cfg cdist now per_query minScore d qs acc = Inr res"
  shows "\<exists>answered. res = foldl merge_results acc answered \<and> map fst answered = map snd qs \<and>
           (\<forall>(q, rs)\<in>set answered.
              \<exists>e. search cfg cdist now
                     \<lparr> q_embedding = e, q_limit = Some per_query, q_minScore = Some minScore,
                       q_tags = None, q_source = None \<rparr> d = Inr rs)"
  using assms
proof (induction qs arbitrary: acc)
  case Nil
  then show ?case by (intro exI [of _ "[]"]) simp
next
  case (Cons p qs)
  obtain e q where p: "p = (e, q)" by (cases p)
  obtain rs where rs: "search cfg cdist now
                     \<lparr> q_embedding = e, q_limit = Some per_query, q_minScore = Some minScore,
                       q_tags = None, q_source = None \<rparr> d = Inr rs"
    and rest: "search_each cfg cdist now per_query minScore d qs (merge_results acc (q, rs)) = Inr res"
    using Cons.prems by (auto simp: p split: sum.splits)
  from Cons.IH [OF rest] obtain answered where
    a: "res = foldl merge_results (merge_results acc (q, rs)) answered"
      "map fst answered = map snd qs"
      "\<forall>(q, rs)\<in>set answered.
              \<exists>e. search cfg cdist now
                     \<lparr> q_embedding = e, q_limit = Some per_query, q_minScore = Some minScore,
                       q_tags = None, q_source = None \<rparr> d = Inr rs"
    by blast
  show ?case
    using a rs by (intro exI [of _ "(q, rs) # answered"]) (auto simp: p)
qed

lemma recall_context_combined_merges:
  assumes "recall_context_combined cfg provider cdist now params d = Inr (task, out)"
  shows "\<exists>answered limit per_query minScore.
           out = combine limit (foldl merge_results [] answered) \<and>
           map fst answered = task # take 10 (nullish (p_context params) []) \<and>
           (\<forall>(q, rs)\<in>set answered.
              \<exists>e. search cfg cdist now
                     \<lparr> q_embedding = e, q_limit = Some per_query, q_minScore = Some minScore,
                       q_tags = None, q_source = None \<rparr> d = Inr rs)"
proof -
  let ?queries = "task # take 10 (nullish (p_context params) [])"
  obtain lim es res where
    t: "validateQuery (p_task params) = Inr task"
    and es: "generateEmbeddings cfg provider ?queries = Inr es"
    and se: "search_each cfg cdist now (nat \<lceil>real_of_int lim / real (length ?queries)\<rceil> + 5)
               (nullish (p_minScore params) (25 / 100)) d (zip es ?queries) [] = Inr res"
    and out: "out = combine (nat lim) res"
    using assms
    by (auto simp: recall_context_combined_def and_then_def validated_def stored_def Let_def
          split: sum.splits)
  have "collect (map (generateEmbedding cfg provider) ?queries) = Inr es"
    using es by (simp only: generateEmbeddings_def)
  from collect_length [OF this] have "length es = length ?queries" by simp
  then have z: "map snd (zip es ?queries) = ?queries" by simp
  let ?pq = "nat \<lceil>real_of_int lim / real (length ?queries)\<rceil> + 5"
  let ?ms = "nullish (p_minScore params) (25 / 100)"
  from search_each_answers [OF se] obtain answered where
    a: "res = foldl merge_results [] answered"
    and b: "map fst answered = map snd (zip es ?queries)"
    and c: "\<forall>(q, rs)\<in>set answered.
              \<exists>e. search cfg cdist now
                     \<lparr> q_embedding = e, q_limit = Some ?pq, q_minScore = Some ?ms,
                       q_tags = None, q_source = None \<rparr> d = Inr rs"
    by blast
  have o: "out = combine (nat lim) (foldl merge_results [] answered)" using out a by simp
  have b': "map fst answered = ?queries" using b z by simp
  show ?thesis
    by (intro exI [of _ answered] exI [of _ "nat lim"] exI [of _ ?pq] exI [of _ ?ms] conjI)
       (rule o b' c)+
qed


lemma merge_example:
  "map (\<lambda>en. (mem_id (row (entry_row en)), hybrid_score (entry_row en), matchedQuery en))
     (combine 10 (foldl merge_results [] answered_example))
     = [(''y'', 1, ''theme''), (''x'', 21 / 25, ''colours'')]"
  by (simp add: answered_example_def x_memory_def y_memory_def blank_memory_def
        merge_results_def merge_result_def combine_def)





section \<open>Properties of storing a memory\<close>














section \<open>Further properties of the reads and of the ledger\<close>

lemma collect_Inr_member:
  assumes "collect xs = Inr ys" and "y \<in> set ys"
  shows "Inr y \<in> set xs"
  using assms by (induction xs arbitrary: ys) (auto split: sum.splits)

lemma score_row_row:
  assumes "score_row cfg cdist now q m = Inr r"
  shows "row r = m"
  using assms by (auto simp: score_row_def split: sum.splits)

lemma search_rows_where:
  assumes "search cfg cdist now args d = Inr rs" and "r \<in> set rs"
  shows "row r \<in> set (memories d) \<and> whereClause args (row r)"
proof -
  obtain C where C: "candidate_pool cfg cdist now args d = Inr C"
    and rs: "rs = filter (\<lambda>r. hybrid_score r \<ge> nullish (q_minScore args) (3 / 10))
                    (take (nullish (q_limit args) 10) (order_by_hybrid_desc C))"
    using assms(1) by (auto simp: search_def Let_def split: sum.splits)
  have "r \<in> set (take (nullish (q_limit args) 10) (order_by_hybrid_desc C))"
    using assms(2) rs by simp
  then have "r \<in> set (order_by_hybrid_desc C)" by (rule in_set_takeD)
  then have rC: "r \<in> set C" by simp
  have pool: "collect (map (score_row cfg cdist now (q_embedding args))
                        (filter (whereClause args) (memories d))) = Inr C"
    using C by (simp only: candidate_pool_def)
  have "Inr r \<in> set (map (score_row cfg cdist now (q_embedding args))
                              (filter (whereClause args) (memories d)))"
    by (rule collect_Inr_member [OF pool rC])
  then obtain m where m: "m \<in> set (memories d)" "whereClause args m"
    and "score_row cfg cdist now (q_embedding args) m = Inr r"
    by auto
  then show ?thesis using score_row_row by blast
qed

text \<open>
  A soft-deleted memory is returned neither by \<open>search\<close>, nor in the final output of
  \<open>recall_context\<close>, nor by the vector-similarity query \<open>getRelated\<close>.
\<close>

theorem soft_deleted_invisible:
  "(search cfg cdist now args d = Inr rs \<longrightarrow> (\<forall>r\<in>set rs. deleted_at (row r) = None))
   \<and> (recall_context_combined cfg provider cdist now params d = Inr (task, out) \<longrightarrow>
        (\<forall>en\<in>set out. deleted_at (row (entry_row en)) = None))
   \<and> (\<forall>r\<in>set (getRelated cdist ident limit d). deleted_at (similar_memory r) = None)"
proof (intro conjI impI ballI)
  fix r assume "search cfg cdist now args d = Inr rs" "r \<in> set rs"
  then show "deleted_at (row r) = None"
    using search_rows_where by (auto simp: whereClause_def)
next
  fix en assume c: "recall_context_combined cfg provider cdist now params d = Inr (task, out)"
    and en: "en \<in> set out"
  from recall_context_combined_merges [OF c]
  obtain answered limit per_query minScore where
    o: "out = combine limit (foldl merge_results [] answered)"
    and s: "\<forall>(q, rs)\<in>set answered.
              \<exists>e. search cfg cdist now
                     \<lparr> q_embedding = e, q_limit = Some per_query, q_minScore = Some minScore,
                       q_tags = None, q_source = None \<rparr> d = Inr rs"
    by (elim exE conjE) (rule that; assumption)
  have "en \<in> set (map snd (foldl merge_results [] answered))"
    using en combine_props(1) unfolding o by blast
  then obtain k where "(k, en) \<in> set (foldl merge_results [] answered)" by auto
  from merged_entries(2) [OF this]
  obtain rs where rs: "(matchedQuery en, rs) \<in> set answered" "entry_row en \<in> set rs" by blast
  then obtain e where "search cfg cdist now
                     \<lparr> q_embedding = e, q_limit = Some per_query, q_minScore = Some minScore,
                       q_tags = None, q_source = None \<rparr> d = Inr rs"
    using s by blast
  then show "deleted_at (row (entry_row en)) = None"
    using search_rows_where rs(2) by (auto simp: whereClause_def)
next
  fix r assume "r \<in> set (getRelated cdist ident limit d)"
  then show "deleted_at (similar_memory r) = None"
    using getRelated_excludes_deleted by blast
qed

theorem soft_deleted_invisible_witness:
  "\<exists>rs. search default_config unit_distance 0 (query_args [1, 0]) filter_db = Inr rs \<and>
        map (\<lambda>r. mem_id (row r)) rs = [''a'', ''b'', ''c''] \<and>
        list_all (\<lambda>r. deleted_at (row r) = None) rs \<and>
        map (\<lambda>m. (mem_id m, deleted_at m)) (memories filter_db)
          = [(''a'', None), (''b'', None), (''c'', None), (''d'', Some 0)]"
proof -
  have "\<exists>rs. search default_config unit_distance 0 (query_args [1, 0]) filter_db = Inr rs \<and>
        map (\<lambda>r. mem_id (row r)) rs = [''a'', ''b'', ''c'']"
    by (simp add: search_def candidate_pool_def score_row_def calculate_hybrid_score_def
          calculate_recency_score_def default_config_def unit_distance_def query_args_def
          filter_db_def empty_db_def blank_memory_def whereClause_def tags_condition_def
          source_condition_def order_by_hybrid_desc_def nullish_def Let_def)
  then obtain rs where rs: "search default_config unit_distance 0 (query_args [1, 0]) filter_db = Inr rs"
    and ids: "map (\<lambda>r. mem_id (row r)) rs = [''a'', ''b'', ''c'']"
    by (elim exE conjE) (rule that; assumption)
  have "list_all (\<lambda>r. deleted_at (row r) = None) rs"
    using soft_deleted_invisible [where cfg = default_config and cdist = unit_distance
        and now = 0 and args = "query_args [1, 0]" and d = filter_db and rs = rs] rs
    by (simp add: list_all_iff)
  moreover have "map (\<lambda>m. (mem_id m, deleted_at m)) (memories filter_db)
          = [(''a'', None), (''b'', None), (''c'', None), (''d'', Some 0)]"
    by (simp add: filter_db_def empty_db_def blank_memory_def)
  ultimately show ?thesis
    by (intro exI [of _ rs] conjI) (rule rs ids | assumption)+
qed

text \<open>
  The coupling of the ledger: \<open>updateAccess\<close> on a stored memory appends one access event
  with the given query text, increments the memory's \<open>access_count\<close> and sets its
  \<open>last_accessed\<close> to the time of the event.
\<close>

theorem update_access_couples:
  assumes "ident \<in> set (map mem_id (memories d))"
  shows "\<exists>d'. updateAccess now ident queryText sim d = Inr d' \<and>
           memory_access_log d' =
             memory_access_log d @
               [\<lparr> memory_id = ident, access_type = ''search'', query_text = queryText,
                   similarity_score = sim, accessed_at = now \<rparr>] \<and>
           memories d' =
             map (\<lambda>m. if mem_id m = ident
                       then m\<lparr> last_accessed := now, access_count := access_count m + 1 \<rparr>
                       else m) (memories d)"
  using updateAccess_records [OF assms, of now queryText sim]
  by (simp add: insert_access_event_def update_memory_access_def)

theorem update_access_couples_witness:
  "''x'' \<in> set (map mem_id (memories recall_db)) \<and>
   (\<exists>d'. updateAccess 7 ''x'' (Some ''theme'') None recall_db = Inr d' \<and>
      map query_text (memory_access_log d') = [Some ''theme''] \<and>
      map (\<lambda>m. (mem_id m, access_count m, last_accessed m)) (memories d')
        = [(''x'', 1, 7), (''y'', 0, 0)])"
proof -
  have h: "''x'' \<in> set (map mem_id (memories recall_db))"
    by (simp add: recall_db_def empty_db_def blank_memory_def)
  from update_access_couples [OF h, of 7 "Some ''theme''" None]
  obtain d' where d': "updateAccess 7 ''x'' (Some ''theme'') None recall_db = Inr d'"
    and lg: "memory_access_log d' =
             memory_access_log recall_db @
               [\<lparr> memory_id = ''x'', access_type = ''search'', query_text = Some ''theme'',
                   similarity_score = None, accessed_at = 7 \<rparr>]"
    and ms: "memories d' =
             map (\<lambda>m. if mem_id m = ''x''
                       then m\<lparr> last_accessed := 7, access_count := access_count m + 1 \<rparr>
                       else m) (memories recall_db)"
    by (elim exE conjE) (rule that; assumption)
  have a: "map query_text (memory_access_log d') = [Some ''theme'']"
    unfolding lg by (simp add: recall_db_def empty_db_def)
  have b: "map (\<lambda>m. (mem_id m, access_count m, last_accessed m)) (memories d')
        = [(''x'', 1, 7), (''y'', 0, 0)]"
    unfolding ms by (simp add: recall_db_def empty_db_def blank_memory_def)
  show ?thesis
    by (intro conjI exI [of _ d']) (rule h d' a b)+
qed

end
